theory Spec2Isabelle
  imports Main "HOL-Library.Sublist"
begin

section \<open>Regex find/replace: the text-transformation engine of \<^verbatim>\<open>src/main.ts\<close>\<close>

text \<open>
  A shallow embedding of the plugin's transform engine: the escape processing of the
  replacement template, the literal (split/join) mode of the dialog, application of a
  saved expression, of a batch and of a group to the editor, and the live preview scan.

  Strings are \<open>string\<close> (lists of 8-bit characters, one element per code unit; there are
  no surrogate pairs, so advancing a string index is always \<open>+ 1\<close>). The native regular
  expression engine is not part of the repository: the functions below take it as the
  parameter \<open>eng\<close>, and the iteration protocols of \<^verbatim>\<open>RegExp.prototype.exec\<close>,
  \<^verbatim>\<open>String.prototype.match\<close> and \<^verbatim>\<open>String.prototype.replace\<close> are written out
  over it as ECMAScript defines them.
\<close>

subsection \<open>Characters\<close>

definition backslash :: char where
  "backslash = CHR 0x5C"

definition lineBreak :: char where
  "lineBreak = CHR 0x0A"

definition tabChar :: char where
  "tabChar = CHR 0x09"

subsection \<open>Data model (lines 18-54)\<close>

record SavedExpression =
  name :: string
  pattern :: string
  flags :: string
  replace :: string

record ExpressionGroup =
  gname :: string
  items :: "string list"

record RfrPluginSettings =
  findText :: string
  replaceText :: string
  useRegEx :: bool
  selOnly :: bool
  caseInsensitive :: bool
  processLineBreak :: bool
  processTab :: bool
  prefillFind :: bool
  savedExpressions :: "SavedExpression list"
  savedGroups :: "ExpressionGroup list"

definition DEFAULT_SETTINGS :: RfrPluginSettings where
  "DEFAULT_SETTINGS =
     \<lparr> findText = [], replaceText = [], useRegEx = True, selOnly = False,
       caseInsensitive = False, processLineBreak = False, processTab = False,
       prefillFind = False, savedExpressions = [], savedGroups = [] \<rparr>"

subsection \<open>Escape sequences of the replacement template\<close>

text \<open>
  \<^verbatim>\<open>replaceString.replace(/\\n/gm, '\n')\<close>: every occurrence, left to right, of the two
  characters backslash and \<open>k\<close> becomes the single character \<open>r\<close>. The replacement text
  holds no \<^verbatim>\<open>$\<close>, so it is inserted as it is.
\<close>

fun expandEscape :: "char \<Rightarrow> char \<Rightarrow> string \<Rightarrow> string" where
  "expandEscape k r [] = []"
| "expandEscape k r [c] = [c]"
| "expandEscape k r (c # d # rest) =
     (if c = backslash \<and> d = k then r # expandEscape k r rest
      else c # expandEscape k r (d # rest))"

text \<open>Lines 240-243, 268-270 and 486-500: line breaks first, tabs second.\<close>

definition resolveEscapes :: "RfrPluginSettings \<Rightarrow> string \<Rightarrow> string" where
  "resolveEscapes st replaceString =
     (let r1 = (if processLineBreak st
                then expandEscape (CHR ''n'') lineBreak replaceString else replaceString);
          r2 = (if processTab st then expandEscape (CHR ''t'') tabChar r1 else r1)
      in r2)"

subsection \<open>Literal mode: \<^verbatim>\<open>split\<close> and \<^verbatim>\<open>join\<close>\<close>

text \<open>
  \<^verbatim>\<open>String.prototype.split\<close> with a string separator. \<open>splitFrom sep piece s\<close> scans \<open>s\<close>
  with the current piece \<open>piece\<close> already read. It is used with a separator that is not
  empty; the second equation only makes the function total.
\<close>

fun splitFrom :: "string \<Rightarrow> string \<Rightarrow> string \<Rightarrow> string list" where
  "splitFrom sep piece [] = [piece]"
| "splitFrom [] piece (c # cs) = [piece @ c # cs]"
| "splitFrom (s # ss) piece (c # cs) =
     (if prefix (s # ss) (c # cs)
      then piece # splitFrom (s # ss) [] (drop (length ss) cs)
      else splitFrom (s # ss) (piece @ [c]) cs)"

text \<open>An empty separator splits into single characters (and \<^verbatim>\<open>''.split('')\<close> is empty).\<close>

definition js_split :: "string \<Rightarrow> string \<Rightarrow> string list" where
  "js_split s sep = (if sep = [] then map (\<lambda>c. [c]) s else splitFrom sep [] s)"

fun js_join :: "string list \<Rightarrow> string \<Rightarrow> string" where
  "js_join [] sep = []"
| "js_join [p] sep = p"
| "js_join (p # q # ps) sep = p @ sep @ js_join (q # ps) sep"

subsection \<open>The native regular expression engine\<close>

text \<open>
  What the engine gives for one attempt at one index of a text: the length of the
  match, the captured groups (\<open>None\<close> for a group that did not take part) and, when the
  pattern has named groups, the named captures.
\<close>

record rmatch =
  matchLength :: nat
  captures :: "string option list"
  namedCaptures :: "(string \<times> string option) list option"

type_synonym matcher = "string \<Rightarrow> nat \<Rightarrow> rmatch option"

text \<open>
  The engine compiles a pattern and a flags string to a matcher, or rejects them
  (\<open>None\<close>: the constructor throws a SyntaxError).
\<close>

type_synonym engine = "string \<Rightarrow> string \<Rightarrow> matcher option"

datatype error = SyntaxError

record regexp =
  rx_global :: bool
  rx_sticky :: bool
  rx_matcher :: matcher

definition new_RegExp :: "engine \<Rightarrow> string \<Rightarrow> string \<Rightarrow> error + regexp" where
  "new_RegExp eng pat fl =
     (case eng pat fl of
        None \<Rightarrow> Inl SyntaxError
      | Some m \<Rightarrow> Inr \<lparr> rx_global = (CHR ''g'' \<in> set fl), rx_sticky = (CHR ''y'' \<in> set fl),
                       rx_matcher = m \<rparr>)"

text \<open>
  One \<^verbatim>\<open>exec\<close> of a regexp whose \<^verbatim>\<open>lastIndex\<close> is read (global or sticky), starting at
  \<open>lastIndex\<close>: the first index from there on at which the matcher succeeds, and the
  match. A sticky regexp tries \<open>lastIndex\<close> only.
\<close>

function execAt :: "regexp \<Rightarrow> string \<Rightarrow> nat \<Rightarrow> (nat \<times> rmatch) option" where
  "execAt r s lastIndex =
     (if lastIndex > length s then None
      else (case rx_matcher r s lastIndex of
              Some m \<Rightarrow> Some (lastIndex, m)
            | None \<Rightarrow> (if rx_sticky r then None else execAt r s (Suc lastIndex))))"
  by pat_completeness auto
termination
  by (relation "measure (\<lambda>(r, s, lastIndex). Suc (length s) - lastIndex)") auto

lemma execAt_bounds:
  "execAt r s lastIndex = Some (i, m) \<Longrightarrow> lastIndex \<le> i \<and> i \<le> length s"
proof (induction r s lastIndex rule: execAt.induct)
  case (1 r s lastIndex)
  show ?case
  proof (cases "rx_matcher r s lastIndex")
    case None
    with "1.prems" have inner: "\<not> length s < lastIndex" "\<not> rx_sticky r"
      "execAt r s (Suc lastIndex) = Some (i, m)"
      by (auto split: if_splits)
    from "1.IH" [OF inner(1) None inner(2) inner(3)] show ?thesis by simp
  next
    case (Some m')
    with "1.prems" show ?thesis by (auto split: if_splits)
  qed
qed

declare execAt.simps [simp del]

definition matchedText :: "string \<Rightarrow> nat \<Rightarrow> rmatch \<Rightarrow> string" where
  "matchedText s i m = take (matchLength m) (drop i s)"

text \<open>
  The iteration shared by \<^verbatim>\<open>match\<close> and \<^verbatim>\<open>replace\<close> on a global regexp: \<^verbatim>\<open>exec\<close> until
  it fails; after an empty match \<^verbatim>\<open>lastIndex\<close> is advanced by one.
\<close>

function scanAll :: "regexp \<Rightarrow> string \<Rightarrow> nat \<Rightarrow> (nat \<times> rmatch) list" where
  "scanAll r s lastIndex =
     (case execAt r s lastIndex of
        None \<Rightarrow> []
      | Some (i, m) \<Rightarrow>
          (i, m) # scanAll r s (if matchLength m = 0 then i + 1 else i + matchLength m))"
  by pat_completeness auto

termination
proof (relation "measure (\<lambda>(r, s, lastIndex). Suc (length s) - lastIndex)")
  show "wf (measure (\<lambda>(r, s, lastIndex). Suc (length s) - lastIndex))" by simp
next
  fix r :: regexp and s :: string and lastIndex :: nat and x2 :: "nat \<times> rmatch"
    and i :: nat and m :: rmatch
  assume "execAt r s lastIndex = Some x2" and "(i, m) = x2"
  then have "lastIndex \<le> i \<and> i \<le> length s"
    using execAt_bounds [of r s lastIndex i m] by simp
  then show "((r, s, if matchLength m = 0 then i + 1 else i + matchLength m), r, s, lastIndex)
      \<in> measure (\<lambda>(r, s, lastIndex). Suc (length s) - lastIndex)"
    by auto
qed

declare scanAll.simps [simp del]

text \<open>
  \<^verbatim>\<open>text.match(re)\<close> on a new regexp object (its \<^verbatim>\<open>lastIndex\<close> is 0): \<open>None\<close> is \<^verbatim>\<open>null\<close>. A
  global regexp gives the array of all matched texts; any other regexp gives the result
  of one \<^verbatim>\<open>exec\<close> from index 0, the matched text followed by one entry per capture group.
\<close>

definition js_match :: "regexp \<Rightarrow> string \<Rightarrow> string option list option" where
  "js_match r s =
     (if rx_global r
      then (let ms = scanAll r s 0
            in if ms = [] then None else Some (map (\<lambda>(i, m). Some (matchedText s i m)) ms))
      else (case execAt r s 0 of
              None \<Rightarrow> None
            | Some (i, m) \<Rightarrow> Some (Some (matchedText s i m) # captures m)))"

definition isDigit :: "char \<Rightarrow> bool" where
  "isDigit c = (c \<in> set ''0123456789'')"

definition digitVal :: "char \<Rightarrow> nat" where
  "digitVal c = of_char c - 48"

definition captureText :: "string option \<Rightarrow> string" where
  "captureText c = (case c of None \<Rightarrow> [] | Some t \<Rightarrow> t)"

definition namedCapture :: "(string \<times> string option) list \<Rightarrow> string \<Rightarrow> string" where
  "namedCapture groups groupName =
     (case map_of groups groupName of None \<Rightarrow> [] | Some c \<Rightarrow> captureText c)"

text \<open>
  The template expansion of \<^verbatim>\<open>replace\<close> (ECMAScript GetSubstitution): \<^verbatim>\<open>$$\<close>, \<^verbatim>\<open>$&\<close>,
  the text before and after the match, numbered groups with one or two digits, named
  groups; any other \<^verbatim>\<open>$\<close> stands for itself.
\<close>

function (sequential) getSubstitution ::
  "string \<Rightarrow> string \<Rightarrow> nat \<Rightarrow> string option list \<Rightarrow> (string \<times> string option) list option
     \<Rightarrow> string \<Rightarrow> string" where
  "getSubstitution matched str position caps named [] = []"
| "getSubstitution matched str position caps named [c] = [c]"
| "getSubstitution matched str position caps named (c # d # rest) =
     (if c \<noteq> CHR ''$'' then c # getSubstitution matched str position caps named (d # rest)
      else if d = CHR ''$'' then CHR ''$'' # getSubstitution matched str position caps named rest
      else if d = CHR ''&'' then matched @ getSubstitution matched str position caps named rest
      else if d = CHR 0x60
        then take position str @ getSubstitution matched str position caps named rest
      else if d = CHR 0x27
        then drop (position + length matched) str
               @ getSubstitution matched str position caps named rest
      else if isDigit d then
        (case rest of
           e # rest' \<Rightarrow>
             (if isDigit e \<and> digitVal d * 10 + digitVal e \<le> length caps
              then (if 1 \<le> digitVal d * 10 + digitVal e
                    then captureText (caps ! (digitVal d * 10 + digitVal e - 1))
                           @ getSubstitution matched str position caps named rest'
                    else c # d # e # getSubstitution matched str position caps named rest')
              else (if 1 \<le> digitVal d \<and> digitVal d \<le> length caps
                    then captureText (caps ! (digitVal d - 1))
                           @ getSubstitution matched str position caps named rest
                    else c # d # getSubstitution matched str position caps named rest))
         | [] \<Rightarrow>
             (if 1 \<le> digitVal d \<and> digitVal d \<le> length caps
              then captureText (caps ! (digitVal d - 1)) else [c, d]))
      else if d = CHR ''<'' then
        (case named of
           None \<Rightarrow> c # d # getSubstitution matched str position caps named rest
         | Some groups \<Rightarrow>
             (if CHR ''>'' \<notin> set rest
              then c # d # getSubstitution matched str position caps named rest
              else namedCapture groups (takeWhile (\<lambda>x. x \<noteq> CHR ''>'') rest)
                     @ getSubstitution matched str position caps named
                         (tl (dropWhile (\<lambda>x. x \<noteq> CHR ''>'') rest))))
      else c # getSubstitution matched str position caps named (d # rest))"
  by pat_completeness auto
termination
proof -
  have shorter: "length (dropWhile P xs) - Suc 0 < Suc (Suc (length xs))"
    for P :: "char \<Rightarrow> bool" and xs
    using length_dropWhile_le [of P xs] by simp
  show ?thesis
    by (relation "measure (\<lambda>(matched, str, position, caps, named, template). length template)")
      (auto simp: shorter)
qed

text \<open>
  \<^verbatim>\<open>text.replace(re, replaceString)\<close> on a new regexp object: the matches of the scan (all
  of them for a global regexp, the first one otherwise) are replaced by the expanded
  template; the text between them is kept.
\<close>

fun replaceResults :: "string \<Rightarrow> string \<Rightarrow> nat \<Rightarrow> (nat \<times> rmatch) list \<Rightarrow> string" where
  "replaceResults s replaceValue nextSourcePosition [] = drop nextSourcePosition s"
| "replaceResults s replaceValue nextSourcePosition ((position, m) # results) =
     (let matched = matchedText s position m;
          replacement = getSubstitution matched s position (captures m) (namedCaptures m)
                          replaceValue
      in if position \<ge> nextSourcePosition
         then take (position - nextSourcePosition) (drop nextSourcePosition s) @ replacement
                @ replaceResults s replaceValue (position + matchLength m) results
         else replaceResults s replaceValue nextSourcePosition results)"

definition js_replace :: "regexp \<Rightarrow> string \<Rightarrow> string \<Rightarrow> string" where
  "js_replace r s replaceValue =
     replaceResults s replaceValue 0
       (if rx_global r then scanAll r s 0
        else (case execAt r s 0 of None \<Rightarrow> [] | Some x \<Rightarrow> [x]))"

text \<open>
  The commands below make one regexp object and pass it to \<^verbatim>\<open>match\<close> and then to
  \<^verbatim>\<open>replace\<close>, so \<^verbatim>\<open>replace\<close> finds the \<^verbatim>\<open>lastIndex\<close> that \<^verbatim>\<open>match\<close> left on the object.
  On a global regexp \<^verbatim>\<open>match\<close> ends with the \<^verbatim>\<open>exec\<close> that fails, which sets \<^verbatim>\<open>lastIndex\<close> to
  0. On a regexp that is sticky and not global the one \<^verbatim>\<open>exec\<close> of \<^verbatim>\<open>match\<close> sets
  \<^verbatim>\<open>lastIndex\<close> to the end of its match, or to 0 when it fails. Any other regexp keeps
  the 0 of a new object.
\<close>

definition lastIndexAfterMatch :: "regexp \<Rightarrow> string \<Rightarrow> nat" where
  "lastIndexAfterMatch r s =
     (if rx_global r \<or> \<not> rx_sticky r then 0
      else (case execAt r s 0 of None \<Rightarrow> 0 | Some (i, m) \<Rightarrow> i + matchLength m))"

text \<open>
  \<^verbatim>\<open>text.replace(re, replaceString)\<close> on a regexp object whose \<^verbatim>\<open>lastIndex\<close> is \<open>lastIndex\<close>.
  A global regexp is reset to 0 first; a sticky one that is not global tries the index
  \<open>lastIndex\<close> only; any other regexp does not read \<^verbatim>\<open>lastIndex\<close> and searches from 0.
\<close>

definition js_replace_from :: "regexp \<Rightarrow> nat \<Rightarrow> string \<Rightarrow> string \<Rightarrow> string" where
  "js_replace_from r lastIndex s replaceValue =
     replaceResults s replaceValue 0
       (if rx_global r then scanAll r s 0
        else (case execAt r s (if rx_sticky r then lastIndex else 0) of
                None \<Rightarrow> []
              | Some x \<Rightarrow> [x]))"

subsection \<open>The host editor\<close>

text \<open>
  The text buffer is the text before the selection, the selected text and the text
  after it; \<open>highlights\<close> are the ranges last dispatched to the highlight field, and
  \<open>calls\<close> records every call made to the editor, in order.
\<close>

datatype host_call =
    GetValue
  | GetSelection
  | GetCursorFrom
  | SetValue string
  | ReplaceSelection string

record editor =
  textBefore :: string
  selection :: string
  textAfter :: string
  highlights :: "(nat \<times> nat) list"
  calls :: "host_call list"

definition docText :: "editor \<Rightarrow> string" where
  "docText ed = textBefore ed @ selection ed @ textAfter ed"

definition getValue :: "editor \<Rightarrow> string \<times> editor" where
  "getValue ed = (docText ed, ed\<lparr>calls := calls ed @ [GetValue]\<rparr>)"

definition getSelection :: "editor \<Rightarrow> string \<times> editor" where
  "getSelection ed = (selection ed, ed\<lparr>calls := calls ed @ [GetSelection]\<rparr>)"

text \<open>\<^verbatim>\<open>posToOffset(getCursor('from'))\<close>: the offset at which the selection starts.\<close>

definition cursorFromOffset :: "editor \<Rightarrow> nat \<times> editor" where
  "cursorFromOffset ed = (length (textBefore ed), ed\<lparr>calls := calls ed @ [GetCursorFrom]\<rparr>)"

text \<open>Where the cursor stands after a write is the host's choice; nothing below reads it.\<close>

definition setValue :: "editor \<Rightarrow> string \<Rightarrow> editor" where
  "setValue ed t =
     ed\<lparr>textBefore := [], selection := [], textAfter := t, calls := calls ed @ [SetValue t]\<rparr>"

definition replaceSelection :: "editor \<Rightarrow> string \<Rightarrow> editor" where
  "replaceSelection ed t =
     ed\<lparr>textBefore := textBefore ed @ t, selection := [],
        calls := calls ed @ [ReplaceSelection t]\<rparr>"

definition setHighlights :: "editor \<Rightarrow> (nat \<times> nat) list \<Rightarrow> editor" where
  "setHighlights ed ranges = ed\<lparr>highlights := ranges\<rparr>"

definition clearHighlights :: "editor \<Rightarrow> editor" where
  "clearHighlights ed = ed\<lparr>highlights := []\<rparr>"

definition offsetToPos :: "editor \<Rightarrow> nat \<Rightarrow> nat \<times> nat" where
  "offsetToPos ed off =
     (let pre = take off (docText ed)
      in (length (filter (\<lambda>c. c = lineBreak) pre),
          length (takeWhile (\<lambda>c. c \<noteq> lineBreak) (rev pre))))"

fun isRead :: "host_call \<Rightarrow> bool" where
  "isRead GetValue = True"
| "isRead GetSelection = True"
| "isRead _ = False"

fun isWrite :: "host_call \<Rightarrow> bool" where
  "isWrite (SetValue t) = True"
| "isWrite (ReplaceSelection t) = True"
| "isWrite _ = False"

subsection \<open>What a command leaves behind\<close>

datatype scope = Document | Selection

datatype resultString = NoMatch | Made int scope

datatype notice =
    Applied string nat scope
  | NoMatchFor string scope
  | NoExpressionsSelected
  | BatchApplied nat nat
  | NoValidExpressions string
  | NothingToSearchFor
  | Result resultString

text \<open>A command ends with a notice, or an exception leaves it (\<open>Threw\<close>).\<close>

datatype outcome = Threw error | Notice notice

subsection \<open>applyExpression (lines 238-260)\<close>

definition applyExpression ::
  "engine \<Rightarrow> RfrPluginSettings \<Rightarrow> editor \<Rightarrow> SavedExpression \<Rightarrow> editor \<times> outcome" where
  "applyExpression eng st ed expr =
     (case new_RegExp eng (pattern expr) (flags expr) of
        Inl e \<Rightarrow> (ed, Threw e)
      | Inr searchRegex \<Rightarrow>
          (let replaceString = resolveEscapes st (replace expr)
           in if \<not> selOnly st
              then (let (documentText, ed1) = getValue ed
                    in case js_match searchRegex documentText of
                         Some rresult \<Rightarrow>
                           (setValue ed1
                              (js_replace_from searchRegex
                                 (lastIndexAfterMatch searchRegex documentText) documentText
                                 replaceString),
                            Notice (Applied (name expr) (length rresult) Document))
                       | None \<Rightarrow> (ed1, Notice (NoMatchFor (name expr) Document)))
              else (let (selectedText, ed1) = getSelection ed
                    in case js_match searchRegex selectedText of
                         Some rresult \<Rightarrow>
                           (replaceSelection ed1
                              (js_replace_from searchRegex
                                 (lastIndexAfterMatch searchRegex selectedText) selectedText
                                 replaceString),
                            Notice (Applied (name expr) (length rresult) Selection))
                       | None \<Rightarrow> (ed1, Notice (NoMatchFor (name expr) Selection)))))"

subsection \<open>applyBatch (lines 262-279)\<close>

text \<open>The \<^verbatim>\<open>for\<close> loop of lines 266-276 over its local variables
  \<^verbatim>\<open>total\<close> (here \<open>totalCount\<close>) and \<^verbatim>\<open>text\<close>.\<close>

fun batchLoop ::
  "engine \<Rightarrow> RfrPluginSettings \<Rightarrow> SavedExpression list \<Rightarrow> nat \<Rightarrow> string
     \<Rightarrow> error + (nat \<times> string)" where
  "batchLoop eng st [] totalCount text = Inr (totalCount, text)"
| "batchLoop eng st (expr # exprs) totalCount text =
     (case new_RegExp eng (pattern expr) (flags expr) of
        Inl e \<Rightarrow> Inl e
      | Inr searchRegex \<Rightarrow>
          (let replaceString = resolveEscapes st (replace expr)
           in case js_match searchRegex text of
                Some hits \<Rightarrow>
                  batchLoop eng st exprs (totalCount + length hits)
                    (js_replace_from searchRegex (lastIndexAfterMatch searchRegex text) text
                       replaceString)
              | None \<Rightarrow> batchLoop eng st exprs totalCount text))"

text \<open>Line 265 reads the scope and line 277 writes it back.\<close>

definition readScope :: "RfrPluginSettings \<Rightarrow> editor \<Rightarrow> string \<times> editor" where
  "readScope st ed = (if selOnly st then getSelection ed else getValue ed)"

definition writeScope :: "RfrPluginSettings \<Rightarrow> editor \<Rightarrow> string \<Rightarrow> editor" where
  "writeScope st ed text = (if selOnly st then replaceSelection ed text else setValue ed text)"

definition applyBatch ::
  "engine \<Rightarrow> RfrPluginSettings \<Rightarrow> editor \<Rightarrow> SavedExpression list \<Rightarrow> editor \<times> outcome" where
  "applyBatch eng st ed exprs =
     (if length exprs = 0 then (ed, Notice NoExpressionsSelected)
      else (let (text, ed1) = readScope st ed
            in case batchLoop eng st exprs 0 text of
                 Inl e \<Rightarrow> (ed1, Threw e)
               | Inr (totalCount, text') \<Rightarrow>
                   (writeScope st ed1 text', Notice (BatchApplied (length exprs) totalCount))))"

subsection \<open>applyGroup (lines 281-285)\<close>

text \<open>\<^verbatim>\<open>Array.prototype.includes\<close> on an array of strings.\<close>

fun js_includes :: "string list \<Rightarrow> string \<Rightarrow> bool" where
  "js_includes [] n = False"
| "js_includes (x # xs) n = (x = n \<or> js_includes xs n)"

text \<open>Line 282: the stored expressions whose names the items of the group include.\<close>

definition resolveGroup :: "RfrPluginSettings \<Rightarrow> ExpressionGroup \<Rightarrow> SavedExpression list" where
  "resolveGroup st grp = filter (\<lambda>e. js_includes (items grp) (name e)) (savedExpressions st)"

definition applyGroup ::
  "engine \<Rightarrow> RfrPluginSettings \<Rightarrow> editor \<Rightarrow> ExpressionGroup \<Rightarrow> editor \<times> outcome" where
  "applyGroup eng st ed grp =
     (let exprs = resolveGroup st grp
      in if length exprs = 0 then (ed, Notice (NoValidExpressions (gname grp)))
         else applyBatch eng st ed exprs)"

subsection \<open>The find/replace dialog (lines 301-590)\<close>

text \<open>Lines 169-173 and 310-311: always global and multiline, optionally case-insensitive.\<close>

definition regexFlags :: "RfrPluginSettings \<Rightarrow> string" where
  "regexFlags st = ''gm'' @ (if caseInsensitive st then ''i'' else [])"

text \<open>
  The end of the submit handler (lines 546-557): the settings are stored, the
  highlights cleared and the result shown.
\<close>

definition finishSubmit ::
  "RfrPluginSettings \<Rightarrow> editor \<Rightarrow> string \<Rightarrow> string \<Rightarrow> bool \<Rightarrow> bool \<Rightarrow> resultString
     \<Rightarrow> editor \<times> RfrPluginSettings \<times> outcome" where
  "finishSubmit st ed searchString replaceString useRegex selToggle res =
     (setHighlights ed [],
      st\<lparr>findText := searchString, replaceText := replaceString, useRegEx := useRegex,
         selOnly := selToggle\<rparr>,
      Notice (Result res))"

text \<open>
  The literal branch of the submit handler (lines 525-544): split at the search text,
  join with the replacement. The source names the scope the other way round (lines 530
  and 538), and so does this definition.
\<close>

definition literalReplaceAll ::
  "editor \<Rightarrow> string \<Rightarrow> string \<Rightarrow> string \<Rightarrow> bool \<Rightarrow> editor \<times> resultString" where
  "literalReplaceAll ed1 selectedText searchString replaceString selToggle =
     (if \<not> selToggle
      then (let (documentText, ed2) = getValue ed1;
                documentSplit = js_split documentText searchString;
                nrOfHits = int (length documentSplit) - 1
            in (setValue ed2 (js_join documentSplit replaceString), Made nrOfHits Selection))
      else (let selectedSplit = js_split selectedText searchString;
                nrOfHits = int (length selectedSplit) - 1
            in (replaceSelection ed1 (js_join selectedSplit replaceString),
                Made nrOfHits Document)))"

text \<open>
  The handler of the button ``Replace All'' (lines 474-558), for the contents of the find
  and replace fields and the two toggles.
\<close>

definition submitReplaceAll ::
  "engine \<Rightarrow> RfrPluginSettings \<Rightarrow> editor \<Rightarrow> string \<Rightarrow> string \<Rightarrow> bool \<Rightarrow> bool
     \<Rightarrow> editor \<times> RfrPluginSettings \<times> outcome" where
  "submitReplaceAll eng st ed searchString replaceInput useRegex selToggle =
     (let (selectedText, ed1) = getSelection ed
      in if searchString = [] then (ed1, st, Notice NothingToSearchFor)
         else
          (let replaceString = resolveEscapes st replaceInput
           in if useRegex
              then (case new_RegExp eng searchString (regexFlags st) of
                      Inl e \<Rightarrow> (ed1, st, Threw e)
                    | Inr searchRegex \<Rightarrow>
                        (if \<not> selToggle
                         then (let (documentText, ed2) = getValue ed1
                               in case js_match searchRegex documentText of
                                    Some rresult \<Rightarrow>
                                      finishSubmit st
                                        (setValue ed2
                                           (js_replace_from searchRegex
                                              (lastIndexAfterMatch searchRegex documentText)
                                              documentText replaceString))
                                        searchString replaceString useRegex selToggle
                                        (Made (int (length rresult)) Document)
                                  | None \<Rightarrow>
                                      finishSubmit st ed2 searchString replaceString useRegex
                                        selToggle NoMatch)
                         else (case js_match searchRegex selectedText of
                                 Some rresult \<Rightarrow>
                                   finishSubmit st
                                     (replaceSelection ed1
                                        (js_replace_from searchRegex
                                           (lastIndexAfterMatch searchRegex selectedText)
                                           selectedText replaceString))
                                     searchString replaceString useRegex selToggle
                                     (Made (int (length rresult)) Selection)
                               | None \<Rightarrow>
                                   finishSubmit st ed1 searchString replaceString useRegex
                                     selToggle NoMatch)))
              else (let (ed', res) = literalReplaceAll ed1 selectedText searchString
                                       replaceString selToggle
                    in finishSubmit st ed' searchString replaceString useRegex selToggle
                         res)))"

subsection \<open>The live preview (lines 391-449)\<close>

datatype info = Matches nat | InvalidRegex

text \<open>One row of the list: its number, the matched text, line and column (from 1).\<close>

type_synonym row = "nat \<times> string \<times> nat \<times> nat"

record previewPanel =
  previewInfo :: info
  previewList :: "row list"
  previewMore :: "nat option"

text \<open>
  The \<^verbatim>\<open>while\<close> loop of lines 416-425. The regexp is global (its flags are
  \<open>regexFlags\<close>), so each \<^verbatim>\<open>exec\<close> starts at \<^verbatim>\<open>lastIndex\<close>. \<open>steps\<close> is not in the
  source: it counts the passes through the loop body.
\<close>

function previewLoop ::
  "regexp \<Rightarrow> string \<Rightarrow> nat \<Rightarrow> nat \<Rightarrow> nat \<Rightarrow> (nat \<times> nat) list \<Rightarrow> (string \<times> nat \<times> nat) list
     \<Rightarrow> (nat \<times> nat) list \<times> (string \<times> nat \<times> nat) list \<times> nat" where
  "previewLoop re targetText startOffset lastIndex steps ranges itemList =
     (case execAt re targetText lastIndex of
        None \<Rightarrow> (ranges, itemList, steps)
      | Some (start, m) \<Rightarrow>
          (let end = start + matchLength m;
               ranges' = (if end > start
                          then ranges @ [(startOffset + start, startOffset + end)] else ranges);
               itemList' = (if end > start
                         then itemList @ [(matchedText targetText start m, startOffset + start,
                                        startOffset + end)]
                         else itemList);
               lastIndex' = (if matchLength m = 0 then end + 1 else end)
           in previewLoop re targetText startOffset lastIndex' (Suc steps) ranges' itemList'))"
  by pat_completeness auto
termination
proof (relation "measure (\<lambda>(re, targetText, startOffset, lastIndex, steps, ranges, itemList).
    Suc (length targetText) - lastIndex)")
  show "wf (measure (\<lambda>(re, targetText, startOffset, lastIndex, steps, ranges, itemList).
    Suc (length targetText) - lastIndex))" by simp
next
  fix re :: regexp and targetText :: string and startOffset lastIndex steps :: nat
    and ranges :: "(nat \<times> nat) list" and itemList :: "(string \<times> nat \<times> nat) list"
    and x2 :: "nat \<times> rmatch" and start :: nat and m :: rmatch and xa xb xc xd
  assume "execAt re targetText lastIndex = Some x2" and "(start, m) = x2"
    and "xa = start + matchLength m" and "xd = (if matchLength m = 0 then xa + 1 else xa)"
  moreover from this have "lastIndex \<le> start \<and> start \<le> length targetText"
    using execAt_bounds [of re targetText lastIndex start m] by simp
  ultimately show "((re, targetText, startOffset, xd, Suc steps, xb, xc),
      re, targetText, startOffset, lastIndex, steps, ranges, itemList)
      \<in> measure (\<lambda>(re, targetText, startOffset, lastIndex, steps, ranges, itemList).
          Suc (length targetText) - lastIndex)"
    by auto
qed

declare previewLoop.simps [simp del]

definition tryCatch :: "error + 'a \<Rightarrow> (error \<Rightarrow> error + 'a) \<Rightarrow> error + 'a" where
  "tryCatch body handler = (case body of Inl e \<Rightarrow> handler e | Inr v \<Rightarrow> Inr v)"

text \<open>The rows of lines 429-439 for the first 200 items.\<close>

definition renderRows :: "editor \<Rightarrow> (string \<times> nat \<times> nat) list \<Rightarrow> row list" where
  "renderRows ed shown =
     map (\<lambda>(i, (t, from, to)).
            (let fromPos = offsetToPos ed from in (i + 1, t, fst fromPos + 1, snd fromPos + 1)))
       (zip [0 ..< length shown] shown)"

text \<open>
  \<open>updatePreview\<close> for the contents of the find field and the two toggles. \<open>Inl\<close> would
  be an exception leaving the function.
\<close>

definition updatePreview ::
  "engine \<Rightarrow> RfrPluginSettings \<Rightarrow> editor \<Rightarrow> string \<Rightarrow> bool \<Rightarrow> bool
     \<Rightarrow> error + (editor \<times> previewPanel)" where
  "updatePreview eng st ed pat useRegex selToggle =
     (if \<not> useRegex \<or> pat = []
      then Inr (clearHighlights ed,
                \<lparr> previewInfo = Matches 0, previewList = [], previewMore = None \<rparr>)
      else
       (let fl = regexFlags st;
            (targetText, ed1) = (if selToggle then getSelection ed else getValue ed);
            (startOffset, ed2) = (if selToggle then cursorFromOffset ed1 else (0, ed1))
        in tryCatch
             (case new_RegExp eng pat fl of
                Inl e \<Rightarrow> Inl e
              | Inr re \<Rightarrow>
                  (let (ranges, itemList, steps) = previewLoop re targetText startOffset 0 0 [] [];
                       ed3 = setHighlights ed2 ranges;
                       limit = 200;
                       shown = take limit itemList
                   in Inr (ed3,
                           \<lparr> previewInfo = Matches (length ranges),
                             previewList = renderRows ed3 shown,
                             previewMore = (if length itemList > limit
                                            then Some (length itemList - limit) else None) \<rparr>)))
             (\<lambda>e. Inr (clearHighlights ed2,
                        \<lparr> previewInfo = InvalidRegex, previewList = [],
                          previewMore = None \<rparr>))))"

subsection \<open>A small engine for concrete inputs\<close>

text \<open>
  The theorems below hold for every engine. To run the functions on the examples of the
  specification, \<open>fragmentEngine\<close> implements a fragment of the pattern language: a
  sequence of plain characters, each optionally followed by \<^verbatim>\<open>*\<close> (greedy, with
  backtracking), under flags among \<^verbatim>\<open>d\<close>, \<^verbatim>\<open>g\<close>, \<^verbatim>\<open>m\<close>, \<^verbatim>\<open>s\<close>, \<^verbatim>\<open>y\<close>, none of which
  changes how such a pattern matches at one index. It rejects every other input, among
  them the ill-formed patterns \<^verbatim>\<open>(\<close> and \<^verbatim>\<open>*\<close>.
\<close>

datatype atom = Lit char | Star char

definition isMeta :: "char \<Rightarrow> bool" where
  "isMeta c = (c = backslash \<or> c \<in> set ''^$.*+?()[]{}|'')"

fun parseAtoms :: "string \<Rightarrow> atom list option" where
  "parseAtoms [] = Some []"
| "parseAtoms [c] = (if isMeta c then None else Some [Lit c])"
| "parseAtoms (c # d # rest) =
     (if isMeta c then None
      else if d = CHR ''*'' then map_option (\<lambda>as. Star c # as) (parseAtoms rest)
      else map_option (\<lambda>as. Lit c # as) (parseAtoms (d # rest)))"

text \<open>The length of the match of the atoms at the start of the text, if there is one.\<close>

fun matchAtoms :: "atom list \<Rightarrow> string \<Rightarrow> nat option" where
  "matchAtoms [] s = Some 0"
| "matchAtoms (Lit c # as) [] = None"
| "matchAtoms (Lit c # as) (x # xs) =
     (if x = c then map_option Suc (matchAtoms as xs) else None)"
| "matchAtoms (Star c # as) [] = matchAtoms as []"
| "matchAtoms (Star c # as) (x # xs) =
     (if x = c
      then (case matchAtoms (Star c # as) xs of
              Some n \<Rightarrow> Some (Suc n)
            | None \<Rightarrow> matchAtoms as (x # xs))
      else matchAtoms as (x # xs))"

definition atomsMatcher :: "atom list \<Rightarrow> matcher" where
  "atomsMatcher as s i =
     (if i \<le> length s
      then map_option (\<lambda>n. \<lparr> matchLength = n, captures = [], namedCaptures = None \<rparr>)
             (matchAtoms as (drop i s))
      else None)"

definition fragmentEngine :: engine where
  "fragmentEngine pat fl =
     (if distinct fl \<and> set fl \<subseteq> set ''dgmsy''
      then map_option atomsMatcher (parseAtoms pat) else None)"

text \<open>
  \<open>groupEngine\<close> adds one capture group: it also takes \<^verbatim>\<open>(p)\<close> for a pattern \<^verbatim>\<open>p\<close> of the
  fragment, which matches as \<^verbatim>\<open>p\<close> does and captures the matched text.
\<close>

definition groupMatcher :: "atom list \<Rightarrow> matcher" where
  "groupMatcher as s i =
     map_option (\<lambda>m. m\<lparr>captures := [Some (matchedText s i m)]\<rparr>) (atomsMatcher as s i)"

definition groupEngine :: engine where
  "groupEngine pat fl =
     (if 2 \<le> length pat \<and> hd pat = CHR 0x28 \<and> last pat = CHR 0x29
         \<and> distinct fl \<and> set fl \<subseteq> set ''dgmsy''
      then map_option groupMatcher (parseAtoms (butlast (tl pat)))
      else fragmentEngine pat fl)"

subsection \<open>The specification's reading of the transform engine\<close>

text \<open>
  Single expression, regex mode, in the words of the specification: compile, scan; with
  no match the scope text comes back with count 0; otherwise one pass replaces all
  matches and the count is the number of matches of the scan.
\<close>

definition spec_applyOne ::
  "engine \<Rightarrow> RfrPluginSettings \<Rightarrow> SavedExpression \<Rightarrow> string \<Rightarrow> error + (string \<times> nat)" where
  "spec_applyOne eng st expr scopeText =
     (case new_RegExp eng (pattern expr) (flags expr) of
        Inl e \<Rightarrow> Inl e
      | Inr re \<Rightarrow>
          (let n = length (scanAll re scopeText 0)
           in if n = 0 then Inr (scopeText, 0)
              else Inr (js_replace re scopeText (resolveEscapes st (replace expr)), n)))"

text \<open>
  Batch, in the words of the specification: the expressions in list order, each on the
  output of the one before, the counts added up.
\<close>

fun spec_applyBatch ::
  "engine \<Rightarrow> RfrPluginSettings \<Rightarrow> SavedExpression list \<Rightarrow> string \<Rightarrow> error + (string \<times> nat)" where
  "spec_applyBatch eng st [] scopeText = Inr (scopeText, 0)"
| "spec_applyBatch eng st (expr # exprs) scopeText =
     (case spec_applyOne eng st expr scopeText of
        Inl e \<Rightarrow> Inl e
      | Inr (t1, c1) \<Rightarrow>
          (case spec_applyBatch eng st exprs t1 of
             Inl e \<Rightarrow> Inl e
           | Inr (t2, c2) \<Rightarrow> Inr (t2, c1 + c2)))"

text \<open>
  Literal replacement read as a scan: every occurrence of the pattern, left to right
  and without overlap, is replaced, and the occurrences are counted.
\<close>

fun replaceOccurrences :: "string \<Rightarrow> string \<Rightarrow> string \<Rightarrow> string" where
  "replaceOccurrences sep repl [] = []"
| "replaceOccurrences [] repl (c # cs) = c # cs"
| "replaceOccurrences (s # ss) repl (c # cs) =
     (if prefix (s # ss) (c # cs)
      then repl @ replaceOccurrences (s # ss) repl (drop (length ss) cs)
      else c # replaceOccurrences (s # ss) repl cs)"

fun countOccurrences :: "string \<Rightarrow> string \<Rightarrow> nat" where
  "countOccurrences sep [] = 0"
| "countOccurrences [] (c # cs) = 0"
| "countOccurrences (s # ss) (c # cs) =
     (if prefix (s # ss) (c # cs)
      then Suc (countOccurrences (s # ss) (drop (length ss) cs))
      else countOccurrences (s # ss) cs)"

subsection \<open>Observations of the editor and of the scan\<close>

text \<open>The text and the selection of \<open>ed'\<close> are those of \<open>ed\<close>.\<close>

definition sameText :: "editor \<Rightarrow> editor \<Rightarrow> bool" where
  "sameText ed ed' =
     (textBefore ed' = textBefore ed \<and> selection ed' = selection ed \<and> textAfter ed' = textAfter ed)"

text \<open>The numbers of read calls and of write calls made to the editor so far.\<close>

definition readCount :: "editor \<Rightarrow> nat" where
  "readCount ed = length (filter isRead (calls ed))"

definition writeCount :: "editor \<Rightarrow> nat" where
  "writeCount ed = length (filter isWrite (calls ed))"

text \<open>The matches of non-zero length that the scan visits, and every match it visits
  as a pair of its position and its length.\<close>

definition nonEmptyMatches :: "regexp \<Rightarrow> string \<Rightarrow> nat \<Rightarrow> (nat \<times> rmatch) list" where
  "nonEmptyMatches re t lastIndex = filter (\<lambda>(i, m). matchLength m > 0) (scanAll re t lastIndex)"

definition matchPositions :: "regexp \<Rightarrow> string \<Rightarrow> (nat \<times> nat) list" where
  "matchPositions re t = map (\<lambda>(i, m). (i, matchLength m)) (scanAll re t 0)"

subsection \<open>Example data\<close>

text \<open>An editor that holds the document \<open>t\<close>, nothing selected, no call made yet.\<close>

definition editorOf :: "string \<Rightarrow> editor" where
  "editorOf t =
     \<lparr> textBefore = [], selection = [], textAfter = t, highlights = [], calls = [] \<rparr>"

text \<open>
  The expressions A and B of the specification, an expression whose pattern does not
  compile, two stores, and the regexps that \<open>fragmentEngine\<close> makes of the patterns
  \<^verbatim>\<open>foo\<close>, \<^verbatim>\<open>x*\<close> and \<^verbatim>\<open>xa*\<close> under the flags \<^verbatim>\<open>gm\<close>.
\<close>

definition exprA :: SavedExpression where
  "exprA = \<lparr> name = ''A'', pattern = ''foo'', flags = ''gm'', replace = ''bar'' \<rparr>"

definition exprB :: SavedExpression where
  "exprB = \<lparr> name = ''B'', pattern = ''bar'', flags = ''gm'', replace = ''baz'' \<rparr>"

definition exprBad :: SavedExpression where
  "exprBad = \<lparr> name = ''C'', pattern = ''('', flags = ''gm'', replace = ''x'' \<rparr>"

text \<open>Two expressions whose flags do not ask for a global scan.\<close>

definition exprCapture :: SavedExpression where
  "exprCapture = \<lparr> name = ''P'', pattern = [CHR 0x28, CHR ''a'', CHR 0x29], flags = ''m'',
                   replace = ''X'' \<rparr>"

definition exprSticky :: SavedExpression where
  "exprSticky = \<lparr> name = ''S'', pattern = ''a'', flags = ''y'', replace = ''X'' \<rparr>"

definition storeAB :: RfrPluginSettings where
  "storeAB = DEFAULT_SETTINGS\<lparr>savedExpressions := [exprA, exprB]\<rparr>"

definition storeABad :: RfrPluginSettings where
  "storeABad = DEFAULT_SETTINGS\<lparr>savedExpressions := [exprA, exprBad]\<rparr>"

definition fooRe :: regexp where
  "fooRe = \<lparr> rx_global = True, rx_sticky = False,
             rx_matcher = atomsMatcher [Lit (CHR ''f''), Lit (CHR ''o''), Lit (CHR ''o'')] \<rparr>"

definition starX :: regexp where
  "starX = \<lparr> rx_global = True, rx_sticky = False, rx_matcher = atomsMatcher [Star (CHR ''x'')] \<rparr>"

definition xaRe :: regexp where
  "xaRe = \<lparr> rx_global = True, rx_sticky = False,
            rx_matcher = atomsMatcher [Lit (CHR ''x''), Star (CHR ''a'')] \<rparr>"

section \<open>Properties\<close>

subsection \<open>Evaluating the examples\<close>

lemma fooRe_compiled: "new_RegExp fragmentEngine (pattern exprA) (flags exprA) = Inr fooRe"
  by (simp add: new_RegExp_def fragmentEngine_def isMeta_def backslash_def fooRe_def exprA_def)

lemma starX_compiled: "new_RegExp fragmentEngine ''x*'' ''gm'' = Inr starX"
  by (simp add: new_RegExp_def fragmentEngine_def isMeta_def backslash_def starX_def)

lemma starX_positions: "matchPositions starX ''ab'' = [(0, 0), (1, 0), (2, 0)]"
  by code_simp

lemma starX_preview:
  "updatePreview fragmentEngine DEFAULT_SETTINGS (editorOf ''ab'') ''x*'' True False
     = Inr (\<lparr> textBefore = [], selection = [], textAfter = ''ab'', highlights = [],
              calls = [GetValue] \<rparr>,
            \<lparr> previewInfo = Matches 0, previewList = [], previewMore = None \<rparr>)"
  by code_simp

lemma starX_steps: "snd (snd (previewLoop starX ''ab'' 0 0 0 [] [])) = 3"
  by code_simp

lemma xaRe_compiled: "new_RegExp fragmentEngine ''xa*'' (regexFlags DEFAULT_SETTINGS) = Inr xaRe"
  by (simp add: new_RegExp_def fragmentEngine_def isMeta_def backslash_def xaRe_def
      regexFlags_def DEFAULT_SETTINGS_def)

lemma xaRe_found:
  "nonEmptyMatches xaRe ''ab xab'' 0
     = [(3, \<lparr> matchLength = 2, captures = [], namedCaptures = None \<rparr>)]"
  by code_simp

lemma xaRe_scan: "matchPositions xaRe ''ab xab'' = [(3, 2)]"
  by code_simp

lemma batch_A_then_B: "applyBatch fragmentEngine DEFAULT_SETTINGS (editorOf ''foo'') [exprA, exprB]
  = (\<lparr> textBefore = [], selection = [], textAfter = ''baz'', highlights = [],
       calls = [GetValue, SetValue ''baz''] \<rparr>, Notice (BatchApplied 2 2))"
  by code_simp

lemma batch_B_then_A: "applyBatch fragmentEngine DEFAULT_SETTINGS (editorOf ''foo'') [exprB, exprA]
  = (\<lparr> textBefore = [], selection = [], textAfter = ''bar'', highlights = [],
       calls = [GetValue, SetValue ''bar''] \<rparr>, Notice (BatchApplied 2 1))"
  by code_simp

lemma empty_pattern_preview:
  "updatePreview fragmentEngine DEFAULT_SETTINGS (editorOf ''ab'') [] True False
     = Inr (editorOf ''ab'',
            \<lparr> previewInfo = Matches 0, previewList = [], previewMore = None \<rparr>)"
  by code_simp

lemma literal_example:
  "submitReplaceAll fragmentEngine DEFAULT_SETTINGS (editorOf ''a.b a.b'') ''a.b'' ''X''
       False False
     = (\<lparr> textBefore = [], selection = [], textAfter = ''X X'', highlights = [],
          calls = [GetSelection, GetValue, SetValue ''X X''] \<rparr>,
        DEFAULT_SETTINGS\<lparr>findText := ''a.b'', replaceText := ''X'', useRegEx := False\<rparr>,
        Notice (Result (Made 2 Selection)))"
  by code_simp

subsection \<open>Batches\<close>

lemma js_match_global:
  "rx_global r \<Longrightarrow> js_match r s = (if scanAll r s 0 = [] then None
       else Some (map (\<lambda>(i, m). Some (matchedText s i m)) (scanAll r s 0)))"
  by (simp add: js_match_def Let_def)

text \<open>Unless the regexp is sticky and not global, \<^verbatim>\<open>replace\<close> does not depend on what
  \<^verbatim>\<open>match\<close> left on the object.\<close>

lemma js_replace_from_fresh:
  "rx_global r \<or> \<not> rx_sticky r \<Longrightarrow> js_replace_from r lastIndex s v = js_replace r s v"
  by (auto simp: js_replace_from_def js_replace_def)

lemma batchLoop_spec:
  "\<forall>e\<in>set exprs. CHR ''g'' \<in> set (flags e) \<Longrightarrow>
     batchLoop eng st exprs totalCount text =
       (case spec_applyBatch eng st exprs text of
          Inl e \<Rightarrow> Inl e
        | Inr (t, c) \<Rightarrow> Inr (totalCount + c, t))"
proof (induction exprs arbitrary: totalCount "text")
  case Nil
  then show ?case by simp
next
  case (Cons expr exprs)
  show ?case
  proof (cases "eng (pattern expr) (flags expr)")
    case None
    then show ?thesis by (simp add: new_RegExp_def spec_applyOne_def)
  next
    case (Some m)
    let ?re = "\<lparr> rx_global = True, rx_sticky = (CHR ''y'' \<in> set (flags expr)), rx_matcher = m \<rparr>"
    from Cons.prems Some have re: "new_RegExp eng (pattern expr) (flags expr) = Inr ?re"
      by (simp add: new_RegExp_def)
    from Cons.prems have rest: "\<forall>e\<in>set exprs. CHR ''g'' \<in> set (flags e)" by simp
    have fresh: "js_replace_from ?re lastIndex s v = js_replace ?re s v" for lastIndex s v
      by (rule js_replace_from_fresh) simp
    show ?thesis
    proof (cases "scanAll ?re text 0 = []")
      case True
      then show ?thesis
        using re Cons.IH [OF rest]
        by (simp add: spec_applyOne_def js_match_global split: sum.splits prod.splits)
    next
      case False
      then show ?thesis
        using re Cons.IH [OF rest]
        by (simp add: spec_applyOne_def js_match_global fresh Let_def
            split: sum.splits prod.splits)
    qed
  qed
qed

lemma js_match_None_iff: "js_match r s = None \<longleftrightarrow> scanAll r s 0 = []"
proof (cases "rx_global r")
  case True
  then show ?thesis by (simp add: js_match_def Let_def)
next
  case False
  then show ?thesis
    by (subst scanAll.simps) (simp add: js_match_def split: option.splits)
qed

text \<open>
  The text that a batch leaves is the one of the sequential composition unless a member
  is sticky and not global: the expressions run in list order, each on the text the
  one before left.
\<close>

lemma batchLoop_text:
  "\<forall>e\<in>set exprs. CHR ''g'' \<in> set (flags e) \<or> CHR ''y'' \<notin> set (flags e) \<Longrightarrow>
     map_sum id snd (batchLoop eng st exprs totalCount text)
       = map_sum id fst (spec_applyBatch eng st exprs text)"
proof (induction exprs arbitrary: totalCount "text")
  case Nil
  then show ?case by simp
next
  case (Cons expr exprs)
  from Cons.prems
  have rest: "\<forall>e\<in>set exprs. CHR ''g'' \<in> set (flags e) \<or> CHR ''y'' \<notin> set (flags e)"
    and this_one: "CHR ''g'' \<in> set (flags expr) \<or> CHR ''y'' \<notin> set (flags expr)"
    by simp_all
  show ?case
  proof (cases "new_RegExp eng (pattern expr) (flags expr)")
    case (Inl e)
    then show ?thesis by (simp add: spec_applyOne_def)
  next
    case (Inr re)
    with this_one have "rx_global re \<or> \<not> rx_sticky re"
      by (auto simp: new_RegExp_def split: option.splits)
    then have fresh: "js_replace_from re lastIndex s v = js_replace re s v" for lastIndex s v
      by (rule js_replace_from_fresh)
    show ?thesis
    proof (cases "js_match re text")
      case None
      then have "scanAll re text 0 = []" by (simp add: js_match_None_iff)
      with None Inr Cons.IH [OF rest, of totalCount "text"] show ?thesis
        by (simp add: spec_applyOne_def split: sum.splits prod.splits)
    next
      case (Some hits)
      then have "scanAll re text 0 \<noteq> []" using js_match_None_iff [of re "text"] by simp
      with Some Inr
        Cons.IH [OF rest, of "totalCount + length hits"
          "js_replace re text (resolveEscapes st (replace expr))"]
      show ?thesis
        by (simp add: spec_applyOne_def fresh Let_def split: sum.splits prod.splits)
    qed
  qed
qed

lemma applyBatch_text:
  assumes "\<forall>e\<in>set exprs. CHR ''g'' \<in> set (flags e) \<or> CHR ''y'' \<notin> set (flags e)"
  shows "fst (applyBatch eng st ed exprs) =
     (if exprs = [] then ed
      else (case spec_applyBatch eng st exprs (fst (readScope st ed)) of
              Inl e \<Rightarrow> snd (readScope st ed)
            | Inr (t, c) \<Rightarrow> writeScope st (snd (readScope st ed)) t))"
proof (cases "exprs = []")
  case True
  then show ?thesis by (simp add: applyBatch_def)
next
  case False
  obtain t ed1 where rs: "readScope st ed = (t, ed1)" by (cases "readScope st ed")
  from batchLoop_text [OF assms, of eng st 0 t] False rs show ?thesis
    by (cases "batchLoop eng st exprs 0 t"; cases "spec_applyBatch eng st exprs t")
      (auto simp: applyBatch_def)
qed

text \<open>
  For expressions whose flags ask for a global scan, \<open>applyBatch\<close> is the sequential
  composition of the specification: the scope is read once, the expressions are applied
  in list order, each to the text the one before left, the last text is written back,
  and the reported total is the sum of the numbers of matches each expression found in
  the text it ran on. An empty list touches nothing; a pattern that does not compile
  ends both with the same exception and nothing written.
\<close>

lemma applyBatch_sequential_global:
  assumes "\<forall>e\<in>set exprs. CHR ''g'' \<in> set (flags e)"
  shows "applyBatch eng st ed exprs =
          (if exprs = [] then (ed, Notice NoExpressionsSelected)
           else (let (text, ed1) = readScope st ed
                 in case spec_applyBatch eng st exprs text of
                      Inl e \<Rightarrow> (ed1, Threw e)
                    | Inr (t, c) \<Rightarrow>
                        (writeScope st ed1 t, Notice (BatchApplied (length exprs) c))))"
  using assms by (simp add: applyBatch_def batchLoop_spec split: prod.splits sum.splits)

text \<open>The example of the specification: both orders of A and B on \<^verbatim>\<open>foo\<close>.\<close>

lemma spec_A_then_B:
  "spec_applyBatch fragmentEngine DEFAULT_SETTINGS [exprA, exprB] ''foo'' = Inr (''baz'', 2)"
  by code_simp

lemma spec_B_then_A:
  "spec_applyBatch fragmentEngine DEFAULT_SETTINGS [exprB, exprA] ''foo'' = Inr (''bar'', 1)"
  by code_simp

text \<open>
  Claim C1. The claim fails for an expression whose flags do not ask for a global scan.
  The pattern \<^verbatim>\<open>(a)\<close> under the flags \<^verbatim>\<open>m\<close> matches the text \<^verbatim>\<open>cab\<close> once; the batch of
  this one expression writes \<^verbatim>\<open>cXb\<close> and reports 2 replacements, the length of the array
  that \<^verbatim>\<open>match\<close> returns, which holds the match and its capture group. The pattern \<^verbatim>\<open>a\<close>
  under the flags \<^verbatim>\<open>y\<close> matches \<^verbatim>\<open>ab\<close> at index 0; the batch reports 1 replacement and
  writes \<^verbatim>\<open>ab\<close> back unchanged, since \<^verbatim>\<open>replace\<close> starts at the index 1 that \<^verbatim>\<open>match\<close> left
  on the regexp. The sequential composition of the specification gives \<^verbatim>\<open>cXb\<close> with
  count 1 and \<^verbatim>\<open>Xb\<close> with count 1.
\<close>

theorem applyBatch_nonglobal_divergence:
  "applyBatch groupEngine DEFAULT_SETTINGS (editorOf ''cab'') [exprCapture]
     = (setValue (snd (getValue (editorOf ''cab''))) ''cXb'', Notice (BatchApplied 1 2))
   \<and> spec_applyBatch groupEngine DEFAULT_SETTINGS [exprCapture] ''cab'' = Inr (''cXb'', 1)
   \<and> applyBatch fragmentEngine DEFAULT_SETTINGS (editorOf ''ab'') [exprSticky]
       = (setValue (snd (getValue (editorOf ''ab''))) ''ab'', Notice (BatchApplied 1 1))
   \<and> spec_applyBatch fragmentEngine DEFAULT_SETTINGS [exprSticky] ''ab'' = Inr (''Xb'', 1)"
  by code_simp

lemma batchLoop_compile_failure:
  "e \<in> set exprs \<Longrightarrow> eng (pattern e) (flags e) = None \<Longrightarrow>
     batchLoop eng st exprs totalCount text = Inl SyntaxError"
proof (induction exprs arbitrary: totalCount "text")
  case Nil
  then show ?case by simp
next
  case (Cons expr exprs)
  show ?case
  proof (cases "eng (pattern expr) (flags expr)")
    case None
    then show ?thesis by (simp add: new_RegExp_def)
  next
    case (Some m)
    with Cons.prems have "e \<in> set exprs" by auto
    from Cons.IH [OF this Cons.prems(2)] Some show ?thesis
      by (simp add: new_RegExp_def Let_def split: option.splits)
  qed
qed

lemma readScope_sameText: "sameText ed (snd (readScope st ed))"
  by (simp add: readScope_def getValue_def getSelection_def sameText_def)

lemma readScope_writeCount: "writeCount (snd (readScope st ed)) = writeCount ed"
  by (simp add: readScope_def getValue_def getSelection_def writeCount_def)

lemma readScope_readCount: "readCount (snd (readScope st ed)) = Suc (readCount ed)"
  by (simp add: readScope_def getValue_def getSelection_def readCount_def)

lemma writeScope_counts:
  "readCount (writeScope st ed t) = readCount ed"
  "writeCount (writeScope st ed t) = Suc (writeCount ed)"
  by (simp_all add: writeScope_def setValue_def replaceSelection_def readCount_def
      writeCount_def)

lemma applyBatch_compile_failure:
  assumes "e \<in> set exprs" and "eng (pattern e) (flags e) = None"
  shows "applyBatch eng st ed exprs = (snd (readScope st ed), Threw SyntaxError)"
proof -
  from assms(1) have "exprs \<noteq> []" by auto
  with batchLoop_compile_failure [where eng = eng and e = e, OF assms] show ?thesis
    by (simp add: applyBatch_def split: prod.splits)
qed

text \<open>
  Claim C3. When the pattern and flags of an expression do not compile, applying that
  expression throws and leaves the editor as it was; a batch that holds the expression
  anywhere, and a group that resolves to it, throw as well, make no write call, and
  leave the text and the selection as they were: what the members before it did to the
  local text is dropped.
\<close>

theorem compile_failure_leaves_text:
  assumes "eng (pattern e) (flags e) = None"
  shows "applyExpression eng st ed e = (ed, Threw SyntaxError)
       \<and> (e \<in> set exprs \<longrightarrow>
            snd (applyBatch eng st ed exprs) = Threw SyntaxError
            \<and> sameText ed (fst (applyBatch eng st ed exprs))
            \<and> writeCount (fst (applyBatch eng st ed exprs)) = writeCount ed)
       \<and> (e \<in> set (resolveGroup st grp) \<longrightarrow>
            snd (applyGroup eng st ed grp) = Threw SyntaxError
            \<and> sameText ed (fst (applyGroup eng st ed grp))
            \<and> writeCount (fst (applyGroup eng st ed grp)) = writeCount ed)"
proof (intro conjI impI)
  show "applyExpression eng st ed e = (ed, Threw SyntaxError)"
    using assms by (simp add: applyExpression_def new_RegExp_def)
next
  assume "e \<in> set exprs"
  from applyBatch_compile_failure [where eng = eng and e = e, OF this assms]
  have ab: "applyBatch eng st ed exprs = (snd (readScope st ed), Threw SyntaxError)" .
  show "snd (applyBatch eng st ed exprs) = Threw SyntaxError"
    and "sameText ed (fst (applyBatch eng st ed exprs))"
    and "writeCount (fst (applyBatch eng st ed exprs)) = writeCount ed"
    by (simp_all add: ab readScope_sameText readScope_writeCount)
next
  assume mem: "e \<in> set (resolveGroup st grp)"
  then have ne: "resolveGroup st grp \<noteq> []" by auto
  from applyBatch_compile_failure [where eng = eng and e = e, OF mem assms] ne
  have ag: "applyGroup eng st ed grp = (snd (readScope st ed), Threw SyntaxError)"
    by (simp add: applyGroup_def Let_def)
  show "snd (applyGroup eng st ed grp) = Threw SyntaxError"
    and "sameText ed (fst (applyGroup eng st ed grp))"
    and "writeCount (fst (applyGroup eng st ed grp)) = writeCount ed"
    by (simp_all add: ag readScope_sameText readScope_writeCount)
qed

theorem compile_failure_leaves_text_witness:
  "fragmentEngine (pattern exprBad) (flags exprBad) = None
   \<and> exprBad \<in> set [exprA, exprBad]
   \<and> exprBad \<in> set (resolveGroup storeABad \<lparr> gname = ''G'', items = [''A'', ''C''] \<rparr>)
   \<and> applyExpression fragmentEngine storeABad (editorOf ''foo'') exprBad
       = (editorOf ''foo'', Threw SyntaxError)
   \<and> snd (applyBatch fragmentEngine storeABad (editorOf ''foo'') [exprA, exprBad])
       = Threw SyntaxError
   \<and> sameText (editorOf ''foo'')
        (fst (applyBatch fragmentEngine storeABad (editorOf ''foo'') [exprA, exprBad]))
   \<and> writeCount (fst (applyBatch fragmentEngine storeABad (editorOf ''foo'') [exprA, exprBad]))
       = 0
   \<and> snd (applyGroup fragmentEngine storeABad (editorOf ''foo'')
             \<lparr> gname = ''G'', items = [''A'', ''C''] \<rparr>) = Threw SyntaxError"
proof -
  have bad: "fragmentEngine (pattern exprBad) (flags exprBad) = None"
    by (simp add: fragmentEngine_def exprBad_def isMeta_def)
  have m1: "exprBad \<in> set [exprA, exprBad]" by simp
  have m2: "exprBad \<in> set (resolveGroup storeABad \<lparr> gname = ''G'', items = [''A'', ''C''] \<rparr>)"
    by (simp add: resolveGroup_def storeABad_def DEFAULT_SETTINGS_def exprA_def exprBad_def)
  have w0: "writeCount (editorOf ''foo'') = 0"
    by (simp add: writeCount_def editorOf_def)
  from compile_failure_leaves_text [where eng = fragmentEngine and e = exprBad, OF bad,
      of storeABad "editorOf ''foo''" "[exprA, exprBad]"
      "\<lparr> gname = ''G'', items = [''A'', ''C''] \<rparr>"] m1 m2 w0 bad
  show ?thesis by simp
qed

lemma batchLoop_all_compile:
  "\<forall>e\<in>set exprs. eng (pattern e) (flags e) \<noteq> None \<Longrightarrow>
     \<exists>n t. batchLoop eng st exprs totalCount text = Inr (n, t)"
proof (induction exprs arbitrary: totalCount "text")
  case Nil
  then show ?case by simp
next
  case (Cons expr exprs)
  then obtain m where m: "eng (pattern expr) (flags expr) = Some m" by auto
  from Cons.prems have rest: "\<forall>e\<in>set exprs. eng (pattern e) (flags e) \<noteq> None" by simp
  show ?case
    using m Cons.IH [OF rest]
    by (simp add: new_RegExp_def Let_def split: option.splits)
qed

lemma applyBatch_counts:
  assumes "exprs \<noteq> []" and "\<forall>e\<in>set exprs. eng (pattern e) (flags e) \<noteq> None"
  shows "readCount (fst (applyBatch eng st ed exprs)) = readCount ed + 1
       \<and> writeCount (fst (applyBatch eng st ed exprs)) = writeCount ed + 1"
proof -
  obtain t ed1 where rs: "readScope st ed = (t, ed1)" by (cases "readScope st ed")
  from batchLoop_all_compile [OF assms(2)]
  obtain n t' where bl: "batchLoop eng st exprs 0 t = Inr (n, t')" by blast
  have ed1: "readCount ed1 = Suc (readCount ed)" "writeCount ed1 = writeCount ed"
    using readScope_readCount [of st ed] readScope_writeCount [of st ed] rs by simp_all
  from assms(1) rs bl have "fst (applyBatch eng st ed exprs) = writeScope st ed1 t'"
    by (simp add: applyBatch_def)
  with ed1 show ?thesis by (simp add: writeScope_counts)
qed

text \<open>
  Claim C4, as amended. When every pattern compiles, an application makes exactly one
  read call. A batch of at least one expression, and a group that resolves to at least
  one, then make exactly one write call, also when nothing matches. A single expression
  makes one write call when it matches and none when it matches zero times.
\<close>

theorem one_read_and_writes:
  "(\<forall>re. new_RegExp eng (pattern e) (flags e) = Inr re \<longrightarrow>
      readCount (fst (applyExpression eng st ed e)) = readCount ed + 1
      \<and> writeCount (fst (applyExpression eng st ed e))
          = writeCount ed + (if js_match re (fst (readScope st ed)) = None then 0 else 1))
   \<and> (exprs \<noteq> [] \<and> (\<forall>x\<in>set exprs. eng (pattern x) (flags x) \<noteq> None) \<longrightarrow>
        readCount (fst (applyBatch eng st ed exprs)) = readCount ed + 1
        \<and> writeCount (fst (applyBatch eng st ed exprs)) = writeCount ed + 1)
   \<and> (resolveGroup st grp \<noteq> []
        \<and> (\<forall>x\<in>set (resolveGroup st grp). eng (pattern x) (flags x) \<noteq> None) \<longrightarrow>
        readCount (fst (applyGroup eng st ed grp)) = readCount ed + 1
        \<and> writeCount (fst (applyGroup eng st ed grp)) = writeCount ed + 1)"
proof (intro conjI allI impI)
  fix re
  assume re: "new_RegExp eng (pattern e) (flags e) = Inr re"
  show "readCount (fst (applyExpression eng st ed e)) = readCount ed + 1"
    using re
    by (simp add: applyExpression_def getValue_def getSelection_def setValue_def
        replaceSelection_def readCount_def Let_def split: option.splits)
  show "writeCount (fst (applyExpression eng st ed e))
      = writeCount ed + (if js_match re (fst (readScope st ed)) = None then 0 else 1)"
    using re
    by (simp add: applyExpression_def readScope_def getValue_def getSelection_def setValue_def
        replaceSelection_def writeCount_def Let_def split: option.splits)
next
  assume h: "exprs \<noteq> [] \<and> (\<forall>x\<in>set exprs. eng (pattern x) (flags x) \<noteq> None)"
  then have 1: "exprs \<noteq> []" and 2: "\<forall>x\<in>set exprs. eng (pattern x) (flags x) \<noteq> None"
    by simp_all
  from applyBatch_counts [OF 1 2]
  show "readCount (fst (applyBatch eng st ed exprs)) = readCount ed + 1"
    and "writeCount (fst (applyBatch eng st ed exprs)) = writeCount ed + 1"
    by simp_all
next
  assume h: "resolveGroup st grp \<noteq> []
    \<and> (\<forall>x\<in>set (resolveGroup st grp). eng (pattern x) (flags x) \<noteq> None)"
  then have 1: "resolveGroup st grp \<noteq> []"
    and 2: "\<forall>x\<in>set (resolveGroup st grp). eng (pattern x) (flags x) \<noteq> None"
    by simp_all
  from 1 have ag: "applyGroup eng st ed grp = applyBatch eng st ed (resolveGroup st grp)"
    by (simp add: applyGroup_def Let_def)
  from applyBatch_counts [OF 1 2]
  show "readCount (fst (applyGroup eng st ed grp)) = readCount ed + 1"
    and "writeCount (fst (applyGroup eng st ed grp)) = writeCount ed + 1"
    by (simp_all add: ag)
qed

theorem one_read_and_writes_witness:
  "new_RegExp fragmentEngine (pattern exprA) (flags exprA) = Inr fooRe
   \<and> readCount (fst (applyExpression fragmentEngine storeAB (editorOf ''foo'') exprA)) = 1
   \<and> writeCount (fst (applyExpression fragmentEngine storeAB (editorOf ''foo'') exprA)) = 1
   \<and> writeCount (fst (applyExpression fragmentEngine storeAB (editorOf ''bar'') exprA)) = 0
   \<and> [exprA, exprB] \<noteq> []
   \<and> fragmentEngine (pattern exprA) (flags exprA) \<noteq> None
   \<and> fragmentEngine (pattern exprB) (flags exprB) \<noteq> None
   \<and> readCount (fst (applyBatch fragmentEngine storeAB (editorOf ''xyz'') [exprA, exprB])) = 1
   \<and> writeCount (fst (applyBatch fragmentEngine storeAB (editorOf ''xyz'') [exprA, exprB])) = 1
   \<and> resolveGroup storeAB \<lparr> gname = ''G'', items = [''B'', ''A''] \<rparr> = [exprA, exprB]
   \<and> readCount (fst (applyGroup fragmentEngine storeAB (editorOf ''xyz'')
                        \<lparr> gname = ''G'', items = [''B'', ''A''] \<rparr>)) = 1
   \<and> writeCount (fst (applyGroup fragmentEngine storeAB (editorOf ''xyz'')
                         \<lparr> gname = ''G'', items = [''B'', ''A''] \<rparr>)) = 1"
proof -
  let ?g = "\<lparr> gname = ''G'', items = [''B'', ''A''] \<rparr>"
  have c: "fragmentEngine (pattern exprA) (flags exprA) \<noteq> None"
    "fragmentEngine (pattern exprB) (flags exprB) \<noteq> None"
    by (simp_all add: fragmentEngine_def isMeta_def backslash_def exprA_def exprB_def)
  have rg: "resolveGroup storeAB ?g = [exprA, exprB]"
    by (simp add: resolveGroup_def storeAB_def DEFAULT_SETTINGS_def exprA_def exprB_def)
  have z: "readCount (editorOf t) = 0" "writeCount (editorOf t) = 0" for t
    by (simp_all add: readCount_def writeCount_def editorOf_def)
  have hit: "js_match fooRe (fst (readScope storeAB (editorOf ''foo''))) \<noteq> None"
    by code_simp
  have miss: "js_match fooRe (fst (readScope storeAB (editorOf ''bar''))) = None"
    by code_simp
  note t1 = one_read_and_writes [where eng = fragmentEngine and e = exprA and st = storeAB
      and ed = "editorOf ''foo''" and exprs = "[exprA, exprB]" and grp = ?g]
  note t2 = one_read_and_writes [where eng = fragmentEngine and e = exprA and st = storeAB
      and ed = "editorOf ''bar''" and exprs = "[exprA, exprB]" and grp = ?g]
  note t3 = one_read_and_writes [where eng = fragmentEngine and e = exprA and st = storeAB
      and ed = "editorOf ''xyz''" and exprs = "[exprA, exprB]" and grp = ?g]
  from t1 fooRe_compiled hit z
  have a1: "readCount (fst (applyExpression fragmentEngine storeAB (editorOf ''foo'') exprA)) = 1"
    and a2: "writeCount (fst (applyExpression fragmentEngine storeAB (editorOf ''foo'') exprA)) = 1"
    by simp_all
  from t2 fooRe_compiled miss z
  have a3: "writeCount (fst (applyExpression fragmentEngine storeAB (editorOf ''bar'') exprA)) = 0"
    by simp
  from t3 c z rg
  have b: "readCount (fst (applyBatch fragmentEngine storeAB (editorOf ''xyz'') [exprA, exprB])) = 1"
    "writeCount (fst (applyBatch fragmentEngine storeAB (editorOf ''xyz'') [exprA, exprB])) = 1"
    "readCount (fst (applyGroup fragmentEngine storeAB (editorOf ''xyz'') ?g)) = 1"
    "writeCount (fst (applyGroup fragmentEngine storeAB (editorOf ''xyz'') ?g)) = 1"
    by simp_all
  from fooRe_compiled a1 a2 a3 c b rg show ?thesis by simp
qed

text \<open>
  The claim as it was stated fails for an expression that matches nowhere: \<^verbatim>\<open>foo\<close> on the
  document \<^verbatim>\<open>bar\<close> is one read call and no write call.
\<close>

theorem one_write_counterexample:
  "readCount (fst (applyExpression fragmentEngine DEFAULT_SETTINGS (editorOf ''bar'') exprA)) = 1
   \<and> writeCount (fst (applyExpression fragmentEngine DEFAULT_SETTINGS (editorOf ''bar'') exprA))
       = 0
   \<and> snd (applyExpression fragmentEngine DEFAULT_SETTINGS (editorOf ''bar'') exprA)
       = Notice (NoMatchFor ''A'' Document)"
  by code_simp

subsection \<open>Groups\<close>

lemma js_includes_set: "js_includes xs n \<longleftrightarrow> n \<in> set xs"
  by (induction xs) auto

text \<open>
  Claim C5. A group resolves to the stored expressions whose names are among its items,
  in the order of the store; a name with no stored expression adds nothing. When nothing
  is left the group ends with its notice and the editor is not touched; otherwise the
  group is the batch of the resolved expressions. This holds for every store and every
  group. In particular, when the store holds no expression named Y, a group of the
  items X and Y gives what a group of the item X alone gives, and when the store holds
  one expression \<open>x\<close> named X, that is the batch of \<open>x\<close> alone.
\<close>

theorem applyGroup_resolves:
  "resolveGroup st grp = filter (\<lambda>e. name e \<in> set (items grp)) (savedExpressions st)
   \<and> applyGroup eng st ed grp =
       (if resolveGroup st grp = [] then (ed, Notice (NoValidExpressions (gname grp)))
        else applyBatch eng st ed (resolveGroup st grp))
   \<and> (Y \<notin> name ` set (savedExpressions st) \<longrightarrow>
        applyGroup eng st ed \<lparr> gname = G, items = [X, Y] \<rparr>
          = applyGroup eng st ed \<lparr> gname = G, items = [X] \<rparr>
        \<and> (filter (\<lambda>e. name e = X) (savedExpressions st) = [x] \<longrightarrow>
             applyGroup eng st ed \<lparr> gname = G, items = [X, Y] \<rparr> = applyBatch eng st ed [x]))"
proof (intro conjI impI)
  show "resolveGroup st grp = filter (\<lambda>e. name e \<in> set (items grp)) (savedExpressions st)"
    by (simp add: resolveGroup_def js_includes_set)
next
  show "applyGroup eng st ed grp =
       (if resolveGroup st grp = [] then (ed, Notice (NoValidExpressions (gname grp)))
        else applyBatch eng st ed (resolveGroup st grp))"
    by (simp add: applyGroup_def Let_def)
next
  assume noY: "Y \<notin> name ` set (savedExpressions st)"
  then have same: "filter (\<lambda>e. js_includes [X, Y] (name e)) (savedExpressions st)
      = filter (\<lambda>e. name e = X) (savedExpressions st)"
    by (intro filter_cong) auto
  have one: "filter (\<lambda>e. js_includes [X] (name e)) (savedExpressions st)
      = filter (\<lambda>e. name e = X) (savedExpressions st)"
    by (intro filter_cong) auto
  from same one
  show "applyGroup eng st ed \<lparr> gname = G, items = [X, Y] \<rparr>
      = applyGroup eng st ed \<lparr> gname = G, items = [X] \<rparr>"
    by (simp add: applyGroup_def resolveGroup_def Let_def)
  assume "filter (\<lambda>e. name e = X) (savedExpressions st) = [x]"
  with same
  show "applyGroup eng st ed \<lparr> gname = G, items = [X, Y] \<rparr> = applyBatch eng st ed [x]"
    by (simp add: applyGroup_def resolveGroup_def Let_def)
qed

text \<open>
  The store of A and B: the items A and Y give the batch of A alone, and the item Y
  alone resolves to nothing and leaves the editor as it was.
\<close>

theorem applyGroup_resolves_witness:
  "''Y'' \<notin> name ` set (savedExpressions storeAB)
   \<and> filter (\<lambda>e. name e = ''A'') (savedExpressions storeAB) = [exprA]
   \<and> resolveGroup storeAB \<lparr> gname = ''G'', items = [''A'', ''Y''] \<rparr> = [exprA]
   \<and> applyGroup fragmentEngine storeAB (editorOf ''foo'') \<lparr> gname = ''G'', items = [''A'', ''Y''] \<rparr>
       = applyGroup fragmentEngine storeAB (editorOf ''foo'') \<lparr> gname = ''G'', items = [''A''] \<rparr>
   \<and> applyGroup fragmentEngine storeAB (editorOf ''foo'') \<lparr> gname = ''G'', items = [''A'', ''Y''] \<rparr>
       = applyBatch fragmentEngine storeAB (editorOf ''foo'') [exprA]
   \<and> resolveGroup storeAB \<lparr> gname = ''G'', items = [''Y''] \<rparr> = []
   \<and> applyGroup fragmentEngine storeAB (editorOf ''foo'') \<lparr> gname = ''G'', items = [''Y''] \<rparr>
       = (editorOf ''foo'', Notice (NoValidExpressions ''G''))"
proof -
  have h1: "filter (\<lambda>e. name e = ''A'') (savedExpressions storeAB) = [exprA]"
    by (simp add: storeAB_def DEFAULT_SETTINGS_def exprA_def exprB_def)
  have h2: "''Y'' \<notin> name ` set (savedExpressions storeAB)"
    by (simp add: storeAB_def DEFAULT_SETTINGS_def exprA_def exprB_def)
  note t = applyGroup_resolves [where st = storeAB and eng = fragmentEngine
      and ed = "editorOf ''foo''" and G = "''G''" and X = "''A''" and Y = "''Y''"
      and x = exprA]
  have r1: "resolveGroup storeAB \<lparr> gname = ''G'', items = [''A'', ''Y''] \<rparr> = [exprA]"
    using t [where grp = "\<lparr> gname = ''G'', items = [''A'', ''Y''] \<rparr>", THEN conjunct1]
    by (simp add: storeAB_def DEFAULT_SETTINGS_def exprA_def exprB_def)
  have r2: "resolveGroup storeAB \<lparr> gname = ''G'', items = [''Y''] \<rparr> = []"
    using t [where grp = "\<lparr> gname = ''G'', items = [''Y''] \<rparr>", THEN conjunct1]
    by (simp add: storeAB_def DEFAULT_SETTINGS_def exprA_def exprB_def)
  have e: "applyGroup fragmentEngine storeAB (editorOf ''foo'') \<lparr> gname = ''G'', items = [''Y''] \<rparr>
      = (editorOf ''foo'', Notice (NoValidExpressions ''G''))"
    using t [where grp = "\<lparr> gname = ''G'', items = [''Y''] \<rparr>", THEN conjunct2, THEN conjunct1]
    by (simp add: r2)
  note xy = t [where grp = "\<lparr> gname = ''G'', items = [''Y''] \<rparr>", THEN conjunct2,
      THEN conjunct2, THEN mp, OF h2]
  note x = xy [THEN conjunct1]
  note y = xy [THEN conjunct2, THEN mp, OF h1]
  from h1 h2 r1 r2 e x y show ?thesis by simp
qed

text \<open>
  Claim C10. Applying a group depends on its items as a set only: two item lists with
  the same names, in any order and with any repetitions, resolve to the same
  expressions, taken in the order of the store, and give the same result.
\<close>

theorem applyGroup_items_as_set:
  assumes "set is = set is'"
  shows "applyGroup eng st ed \<lparr> gname = n, items = is \<rparr>
           = applyGroup eng st ed \<lparr> gname = n, items = is' \<rparr>
       \<and> resolveGroup st \<lparr> gname = n, items = is \<rparr>
           = resolveGroup st \<lparr> gname = n, items = is' \<rparr>
       \<and> subseq (resolveGroup st \<lparr> gname = n, items = is \<rparr>) (savedExpressions st)"
  using assms by (simp add: applyGroup_def resolveGroup_def Let_def js_includes_set)

theorem applyGroup_items_as_set_witness:
  "set [''A'', ''B''] = set [''B'', ''A'', ''B'']
   \<and> applyGroup fragmentEngine storeAB (editorOf ''foo'') \<lparr> gname = ''G'', items = [''A'', ''B''] \<rparr>
       = applyGroup fragmentEngine storeAB (editorOf ''foo'')
           \<lparr> gname = ''G'', items = [''B'', ''A'', ''B''] \<rparr>
   \<and> resolveGroup storeAB \<lparr> gname = ''G'', items = [''B'', ''A'', ''B''] \<rparr> = [exprA, exprB]"
proof -
  have s: "set [''A'', ''B''] = set [''B'', ''A'', ''B'']" by auto
  have r: "resolveGroup storeAB \<lparr> gname = ''G'', items = [''B'', ''A'', ''B''] \<rparr> = [exprA, exprB]"
    by (simp add: resolveGroup_def storeAB_def DEFAULT_SETTINGS_def exprA_def exprB_def)
  from applyGroup_items_as_set [OF s, of fragmentEngine storeAB "editorOf ''foo''" "''G''"] s r
  show ?thesis by simp
qed

subsection \<open>The preview scan\<close>

lemma previewLoop_steps:
  "snd (snd (previewLoop re t off lastIndex steps ranges itemList))
     \<le> steps + (Suc (length t) - lastIndex)"
proof (induction re t off lastIndex steps ranges itemList rule: previewLoop.induct)
  case (1 re t off lastIndex steps ranges itemList)
  show ?case
  proof (cases "execAt re t lastIndex")
    case None
    then show ?thesis by (simp add: previewLoop.simps)
  next
    case (Some x)
    obtain start m where x: "x = (start, m)" by (cases x)
    from Some x have b: "lastIndex \<le> start \<and> start \<le> length t"
      using execAt_bounds [of re t lastIndex start m] by simp
    note ih = "1.IH" [OF Some x [symmetric] refl refl refl refl]
    have "previewLoop re t off lastIndex steps ranges itemList
        = previewLoop re t off
            (if matchLength m = 0 then start + matchLength m + 1 else start + matchLength m)
            (Suc steps)
            (if start + matchLength m > start
             then ranges @ [(off + start, off + (start + matchLength m))] else ranges)
            (if start + matchLength m > start
             then itemList @ [(matchedText t start m, off + start, off + (start + matchLength m))]
             else itemList)"
      by (subst previewLoop.simps) (simp only: Some x option.case prod.case Let_def)
    with ih b show ?thesis
      by (simp split: if_splits)
  qed
qed

lemma previewLoop_scanAll:
  "previewLoop re t off lastIndex steps ranges itemList =
     (ranges @ map (\<lambda>(i, m). (off + i, off + i + matchLength m)) (nonEmptyMatches re t lastIndex),
      itemList @ map (\<lambda>(i, m). (matchedText t i m, off + i, off + i + matchLength m))
                   (nonEmptyMatches re t lastIndex),
      steps + length (scanAll re t lastIndex))"
proof (induction re t off lastIndex steps ranges itemList rule: previewLoop.induct)
  case (1 re t off lastIndex steps ranges itemList)
  show ?case
  proof (cases "execAt re t lastIndex")
    case None
    then show ?thesis by (simp add: nonEmptyMatches_def previewLoop.simps scanAll.simps)
  next
    case (Some x)
    obtain start m where x: "x = (start, m)" by (cases x)
    note ih = "1.IH" [OF Some x [symmetric] refl refl refl refl]
    from Some x have sc: "scanAll re t lastIndex
        = (start, m) # scanAll re t (if matchLength m = 0 then start + 1 else start + matchLength m)"
      by (subst scanAll.simps) simp
    show ?thesis
      using ih
      by (subst previewLoop.simps)
        (auto simp add: Some x Let_def nonEmptyMatches_def sc add.assoc)
  qed
qed

lemma scanAll_lower: "(i, m) \<in> set (scanAll re t lastIndex) \<Longrightarrow> lastIndex \<le> i"
proof (induction re t lastIndex rule: scanAll.induct)
  case (1 r s lastIndex)
  show ?case
  proof (cases "execAt r s lastIndex")
    case None
    with "1.prems" show ?thesis by (simp add: scanAll.simps)
  next
    case (Some x)
    obtain start m' where x: "x = (start, m')" by (cases x)
    from Some x have b: "lastIndex \<le> start"
      using execAt_bounds [of r s lastIndex start m'] by simp
    note ih = "1.IH" [OF Some x [symmetric]]
    from "1.prems" Some x have "(i, m) = (start, m') \<or>
        (i, m) \<in> set (scanAll r s (if matchLength m' = 0 then start + 1 else start + matchLength m'))"
      by (subst (asm) scanAll.simps) simp
    with ih b show ?thesis by (auto split: if_splits)
  qed
qed

lemma scanAll_increasing: "sorted_wrt (<) (map fst (scanAll re t lastIndex))"
proof (induction re t lastIndex rule: scanAll.induct)
  case (1 r s lastIndex)
  show ?case
  proof (cases "execAt r s lastIndex")
    case None
    then show ?thesis by (simp add: scanAll.simps)
  next
    case (Some x)
    obtain start m' where x: "x = (start, m')" by (cases x)
    let ?next = "if matchLength m' = 0 then start + 1 else start + matchLength m'"
    note ih = "1.IH" [OF Some x [symmetric]]
    have "\<forall>p\<in>set (scanAll r s ?next). start < fst p"
    proof
      fix p assume "p \<in> set (scanAll r s ?next)"
      then have "?next \<le> fst p" using scanAll_lower [of "fst p" "snd p" r s ?next] by simp
      then show "start < fst p" by (simp split: if_splits)
    qed
    with ih Some x show ?thesis by (subst scanAll.simps) simp
  qed
qed

text \<open>
  Claim C7. The scan of the preview ends for every regexp, in particular for a pattern
  that matches the empty string, and on a text of length L it passes through the loop
  body at most L + 1 times; the scan behind \<^verbatim>\<open>match\<close> and \<^verbatim>\<open>replace\<close> visits at most
  L + 1 matches.
\<close>

theorem preview_scan_step_bound:
  "snd (snd (previewLoop re targetText startOffset 0 0 [] [])) \<le> length targetText + 1
   \<and> length (scanAll re targetText 0) \<le> length targetText + 1"
  using previewLoop_steps [of re targetText startOffset 0 0 "[]" "[]"]
    previewLoop_scanAll [of re targetText startOffset 0 0 "[]" "[]"]
  by simp

text \<open>The pattern \<^verbatim>\<open>x*\<close> on \<^verbatim>\<open>ab\<close> takes all three steps.\<close>

theorem preview_scan_step_bound_witness:
  "snd (snd (previewLoop starX ''ab'' 0 0 0 [] [])) \<le> length ''ab'' + 1
   \<and> snd (snd (previewLoop starX ''ab'' 0 0 0 [] [])) = 3"
  using preview_scan_step_bound [of starX "''ab''" 0] starX_steps by simp

lemma updatePreview_success:
  assumes "pat \<noteq> []" and "new_RegExp eng pat (regexFlags st) = Inr re"
  shows "updatePreview eng st ed pat True selToggle =
    (let targetText = (if selToggle then selection ed else docText ed);
         startOffset = (if selToggle then length (textBefore ed) else 0);
         ed2 = (if selToggle then snd (cursorFromOffset (snd (getSelection ed)))
                else snd (getValue ed));
         found = nonEmptyMatches re targetText 0;
         ranges = map (\<lambda>(i, m). (startOffset + i, startOffset + i + matchLength m)) found;
         itemList = map (\<lambda>(i, m). (matchedText targetText i m, startOffset + i,
                                     startOffset + i + matchLength m)) found;
         ed3 = setHighlights ed2 ranges
     in Inr (ed3, \<lparr> previewInfo = Matches (length ranges),
                     previewList = renderRows ed3 (take 200 itemList),
                     previewMore = (if length itemList > 200
                                    then Some (length itemList - 200) else None) \<rparr>))"
  using assms
  by (simp add: updatePreview_def tryCatch_def previewLoop_scanAll Let_def getSelection_def
      getValue_def cursorFromOffset_def)

text \<open>
  Claim C2, as amended. The scan visits the matches at strictly increasing positions,
  so each match, of length zero or not, is met once at its position. The output of the
  preview holds the matches of non-zero length only, each once and in scan order: they
  are the highlight ranges, their number is the displayed count, and they are the
  items of the list (the first 200 shown, the rest counted). A match of length zero is
  left out of all three.
\<close>

theorem preview_output_nonempty_matches:
  assumes "pat \<noteq> []" and "new_RegExp eng pat (regexFlags st) = Inr re"
  shows "let targetText = (if selToggle then selection ed else docText ed);
             startOffset = (if selToggle then length (textBefore ed) else 0);
             found = nonEmptyMatches re targetText 0
         in sorted_wrt (<) (map fst (scanAll re targetText 0))
          \<and> (\<exists>ed' panel.
                updatePreview eng st ed pat True selToggle = Inr (ed', panel)
              \<and> highlights ed'
                  = map (\<lambda>(i, m). (startOffset + i, startOffset + i + matchLength m)) found
              \<and> previewInfo panel = Matches (length found)
              \<and> previewList panel
                  = renderRows ed'
                      (take 200 (map (\<lambda>(i, m). (matchedText targetText i m, startOffset + i,
                                                  startOffset + i + matchLength m)) found))
              \<and> previewMore panel
                  = (if length found > 200 then Some (length found - 200) else None))"
  using updatePreview_success [OF assms, of ed selToggle] scanAll_increasing
  by (simp add: Let_def setHighlights_def)

theorem preview_output_nonempty_matches_witness:
  "''xa*'' \<noteq> [] \<and> new_RegExp fragmentEngine ''xa*'' (regexFlags DEFAULT_SETTINGS) = Inr xaRe
   \<and> matchPositions xaRe ''ab xab'' = [(3, 2)]
   \<and> (\<exists>ed' panel.
         updatePreview fragmentEngine DEFAULT_SETTINGS (editorOf ''ab xab'') ''xa*'' True False
           = Inr (ed', panel)
       \<and> highlights ed' = [(3, 5)] \<and> previewInfo panel = Matches 1
       \<and> previewMore panel = None)"
proof -
  have ne: "''xa*'' \<noteq> []" by simp
  have doc: "docText (editorOf ''ab xab'') = ''ab xab''"
    by (simp add: docText_def editorOf_def)
  from preview_output_nonempty_matches [OF ne xaRe_compiled, of False "editorOf ''ab xab''"]
  have "\<exists>ed' panel.
         updatePreview fragmentEngine DEFAULT_SETTINGS (editorOf ''ab xab'') ''xa*'' True False
           = Inr (ed', panel)
       \<and> highlights ed' = [(3, 5)] \<and> previewInfo panel = Matches 1
       \<and> previewMore panel = None"
    by (simp only: Let_def if_False doc xaRe_found) auto
  with xaRe_compiled xaRe_scan show ?thesis by simp
qed

text \<open>
  The claim as it was stated fails for \<^verbatim>\<open>x*\<close> on \<^verbatim>\<open>ab\<close>: the scan meets matches of length
  zero at 0, 1 and 2, and the preview shows no range, no item and the count 0.
\<close>

theorem zero_length_counterexample:
  "new_RegExp fragmentEngine ''x*'' (regexFlags DEFAULT_SETTINGS) = Inr starX
   \<and> matchPositions starX ''ab'' = [(0, 0), (1, 0), (2, 0)]
   \<and> updatePreview fragmentEngine DEFAULT_SETTINGS (editorOf ''ab'') ''x*'' True False
       = Inr (\<lparr> textBefore = [], selection = [], textAfter = ''ab'', highlights = [],
                calls = [GetValue] \<rparr>,
              \<lparr> previewInfo = Matches 0, previewList = [], previewMore = None \<rparr>)"
proof -
  have "regexFlags DEFAULT_SETTINGS = ''gm''"
    by (simp add: regexFlags_def DEFAULT_SETTINGS_def)
  with starX_compiled starX_positions starX_preview show ?thesis by simp
qed

text \<open>
  Claim C6, as amended. The preview never raises and never changes the text or the
  selection, and it makes no write call. With an empty pattern, or with the regex
  toggle off, it clears the highlights and the list and shows the count 0, with no
  sign of an invalid pattern. With a pattern that does not compile it clears the
  highlights and the list and shows the invalid status in place of a count.
\<close>

theorem preview_never_raises:
  "(\<exists>ed' panel. updatePreview eng st ed pat useRegex selToggle = Inr (ed', panel)
       \<and> sameText ed ed' \<and> writeCount ed' = writeCount ed)
   \<and> (pat = [] \<or> \<not> useRegex \<longrightarrow>
        updatePreview eng st ed pat useRegex selToggle
          = Inr (clearHighlights ed,
                 \<lparr> previewInfo = Matches 0, previewList = [], previewMore = None \<rparr>))
   \<and> (pat \<noteq> [] \<and> useRegex \<and> eng pat (regexFlags st) = None \<longrightarrow>
        (\<exists>ed'. updatePreview eng st ed pat useRegex selToggle
                 = Inr (ed', \<lparr> previewInfo = InvalidRegex, previewList = [],
                               previewMore = None \<rparr>)
             \<and> highlights ed' = []))"
proof (intro conjI impI)
  show "\<exists>ed' panel. updatePreview eng st ed pat useRegex selToggle = Inr (ed', panel)
       \<and> sameText ed ed' \<and> writeCount ed' = writeCount ed"
  proof (cases "pat = [] \<or> \<not> useRegex")
    case True
    then show ?thesis
      by (auto simp: updatePreview_def clearHighlights_def sameText_def writeCount_def)
  next
    case False
    then have p: "pat \<noteq> []" and u: "useRegex" by simp_all
    show ?thesis
    proof (cases "new_RegExp eng pat (regexFlags st)")
      case (Inl e)
      with p u show ?thesis
        by (simp add: updatePreview_def tryCatch_def clearHighlights_def sameText_def
            writeCount_def getSelection_def getValue_def cursorFromOffset_def Let_def)
    next
      case (Inr re)
      from updatePreview_success [OF p Inr, of ed selToggle] u show ?thesis
        by (simp add: Let_def setHighlights_def sameText_def writeCount_def getSelection_def
            getValue_def cursorFromOffset_def)
    qed
  qed
next
  assume "pat = [] \<or> \<not> useRegex"
  then show "updatePreview eng st ed pat useRegex selToggle
      = Inr (clearHighlights ed,
             \<lparr> previewInfo = Matches 0, previewList = [], previewMore = None \<rparr>)"
    by (auto simp: updatePreview_def)
next
  assume "pat \<noteq> [] \<and> useRegex \<and> eng pat (regexFlags st) = None"
  then show "\<exists>ed'. updatePreview eng st ed pat useRegex selToggle
                 = Inr (ed', \<lparr> previewInfo = InvalidRegex, previewList = [],
                               previewMore = None \<rparr>)
             \<and> highlights ed' = []"
    by (simp add: updatePreview_def tryCatch_def new_RegExp_def clearHighlights_def
        getSelection_def getValue_def cursorFromOffset_def Let_def)
qed

theorem preview_never_raises_witness:
  "''('' \<noteq> [] \<and> fragmentEngine ''('' (regexFlags DEFAULT_SETTINGS) = None
   \<and> (\<exists>ed'. updatePreview fragmentEngine DEFAULT_SETTINGS (editorOf ''ab'') ''('' True False
              = Inr (ed', \<lparr> previewInfo = InvalidRegex, previewList = [], previewMore = None \<rparr>)
          \<and> highlights ed' = [])
   \<and> updatePreview fragmentEngine DEFAULT_SETTINGS (editorOf ''ab'') [] True False
       = Inr (clearHighlights (editorOf ''ab''),
              \<lparr> previewInfo = Matches 0, previewList = [], previewMore = None \<rparr>)"
proof -
  have bad: "fragmentEngine ''('' (regexFlags DEFAULT_SETTINGS) = None"
    by (simp add: fragmentEngine_def isMeta_def)
  from preview_never_raises [of fragmentEngine DEFAULT_SETTINGS "editorOf ''ab''" "''(''" True False]
    preview_never_raises [of fragmentEngine DEFAULT_SETTINGS "editorOf ''ab''" "[]" True False]
    bad
  show ?thesis by simp
qed

text \<open>
  The claim as it was stated fails for the empty pattern: the status shown is a count
  of 0, not the invalid status.
\<close>

theorem empty_pattern_counterexample:
  "updatePreview fragmentEngine DEFAULT_SETTINGS (editorOf ''ab'') [] True False
     = Inr (editorOf ''ab'',
            \<lparr> previewInfo = Matches 0, previewList = [], previewMore = None \<rparr>)
   \<and> Matches 0 \<noteq> InvalidRegex"
  using empty_pattern_preview by simp

subsection \<open>Literal mode\<close>

lemma splitFrom_not_Nil: "splitFrom sep piece s \<noteq> []"
  by (induction sep piece s rule: splitFrom.induct) auto

lemma js_join_Cons: "ps \<noteq> [] \<Longrightarrow> js_join (p # ps) sep = p @ sep @ js_join ps sep"
  by (cases ps) simp_all

lemma js_join_splitFrom:
  "sep \<noteq> [] \<Longrightarrow> js_join (splitFrom sep piece s) repl = piece @ replaceOccurrences sep repl s"
  by (induction sep piece s rule: splitFrom.induct)
    (simp_all add: js_join_Cons splitFrom_not_Nil)

lemma length_splitFrom:
  "sep \<noteq> [] \<Longrightarrow> length (splitFrom sep piece s) = Suc (countOccurrences sep s)"
  by (induction sep piece s rule: splitFrom.induct) simp_all

lemma replaceOccurrences_same_as: "repl = sep \<Longrightarrow> replaceOccurrences sep repl s = s"
proof (induction sep repl s rule: replaceOccurrences.induct)
  case (3 s ss repl c cs)
  show ?case
  proof (cases "prefix (s # ss) (c # cs)")
    case True
    then obtain t where t: "c # cs = (s # ss) @ t" by (auto simp: prefix_def)
    then have "drop (length ss) cs = t" by simp
    with True "3.IH"(1) "3.prems" t show ?thesis by simp
  next
    case False
    from "3.IH"(2) [OF False "3.prems"] have "replaceOccurrences (s # ss) repl cs = cs" .
    with False show ?thesis by (simp del: Cons_prefix_Cons)
  qed
qed simp_all

lemma js_join_chars: "js_join (map (\<lambda>c. [c]) s) [] = s"
  by (induction s rule: induct_list012) simp_all

lemma js_join_js_split: "js_join (js_split s sep) sep = s"
  by (simp add: js_split_def js_join_chars js_join_splitFrom replaceOccurrences_same_as)

text \<open>
  Claim C8. For every scope text, search text and replacement, the literal branch
  writes the pieces of the scope text, split at the search text, joined with the
  replacement as it is (no group token is interpreted), and reports the number of
  pieces minus one. Joining the pieces with the search text gives the scope text back;
  for a search text that is not empty the written text is the scope text with every
  occurrence, left to right, replaced, and the count is the number of these
  occurrences. The submit handler runs this branch, on the replacement after escape
  resolution, whenever the regex toggle is off and the search text passed the guard of
  line 481, and in literal mode it always ends with a notice: nothing is compiled and
  nothing is thrown. The pattern \<^verbatim>\<open>a.b\<close> on \<^verbatim>\<open>a.b a.b\<close> with \<^verbatim>\<open>X\<close> gives \<^verbatim>\<open>X X\<close> and the
  count 2.
\<close>

theorem literal_mode_split_join:
  "(case literalReplaceAll buf selectedText searchString replaceString selToggle of
      (ed', res) \<Rightarrow>
        (let scopeText = (if selToggle then selectedText else docText buf);
             pieces = js_split scopeText searchString
         in docText ed' = (if selToggle
                           then textBefore buf @ js_join pieces replaceString @ textAfter buf
                           else js_join pieces replaceString)
          \<and> (\<exists>sc. res = Made (int (length pieces) - 1) sc)
          \<and> js_join pieces searchString = scopeText
          \<and> (searchString \<noteq> [] \<longrightarrow>
                js_join pieces replaceString
                  = replaceOccurrences searchString replaceString scopeText
              \<and> length pieces = Suc (countOccurrences searchString scopeText))))
   \<and> (searchString \<noteq> [] \<longrightarrow>
        submitReplaceAll eng st ed searchString replaceInput False selToggle
          = (let r = resolveEscapes st replaceInput;
                 (ed', res) = literalReplaceAll (snd (getSelection ed)) (selection ed)
                                searchString r selToggle
             in finishSubmit st ed' searchString r False selToggle res))
   \<and> (\<exists>n. snd (snd (submitReplaceAll eng st ed searchString replaceInput False selToggle))
             = Notice n)
   \<and> submitReplaceAll fragmentEngine DEFAULT_SETTINGS (editorOf ''a.b a.b'') ''a.b'' ''X''
         False False
       = (\<lparr> textBefore = [], selection = [], textAfter = ''X X'', highlights = [],
            calls = [GetSelection, GetValue, SetValue ''X X''] \<rparr>,
          DEFAULT_SETTINGS\<lparr>findText := ''a.b'', replaceText := ''X'', useRegEx := False\<rparr>,
          Notice (Result (Made 2 Selection)))"
proof (intro conjI impI)
  have occ: "js_join (js_split t searchString) r = replaceOccurrences searchString r t"
    and cnt: "length (js_split t searchString) = Suc (countOccurrences searchString t)"
    if "searchString \<noteq> []" for t r
    using that by (simp_all add: js_split_def js_join_splitFrom length_splitFrom)
  show "case literalReplaceAll buf selectedText searchString replaceString selToggle of
      (ed', res) \<Rightarrow>
        (let scopeText = (if selToggle then selectedText else docText buf);
             pieces = js_split scopeText searchString
         in docText ed' = (if selToggle
                           then textBefore buf @ js_join pieces replaceString @ textAfter buf
                           else js_join pieces replaceString)
          \<and> (\<exists>sc. res = Made (int (length pieces) - 1) sc)
          \<and> js_join pieces searchString = scopeText
          \<and> (searchString \<noteq> [] \<longrightarrow>
                js_join pieces replaceString
                  = replaceOccurrences searchString replaceString scopeText
              \<and> length pieces = Suc (countOccurrences searchString scopeText)))"
    using occ cnt
    by (simp add: literalReplaceAll_def getValue_def setValue_def replaceSelection_def
        docText_def Let_def js_join_js_split)
next
  assume "searchString \<noteq> []"
  then show "submitReplaceAll eng st ed searchString replaceInput False selToggle
      = (let r = resolveEscapes st replaceInput;
             (ed', res) = literalReplaceAll (snd (getSelection ed)) (selection ed)
                            searchString r selToggle
         in finishSubmit st ed' searchString r False selToggle res)"
    by (simp add: submitReplaceAll_def getSelection_def Let_def)
next
  show "\<exists>n. snd (snd (submitReplaceAll eng st ed searchString replaceInput False selToggle))
      = Notice n"
    by (simp add: submitReplaceAll_def getSelection_def finishSubmit_def Let_def
        split: prod.splits)
next
  show "submitReplaceAll fragmentEngine DEFAULT_SETTINGS (editorOf ''a.b a.b'') ''a.b'' ''X''
         False False
       = (\<lparr> textBefore = [], selection = [], textAfter = ''X X'', highlights = [],
            calls = [GetSelection, GetValue, SetValue ''X X''] \<rparr>,
          DEFAULT_SETTINGS\<lparr>findText := ''a.b'', replaceText := ''X'', useRegEx := False\<rparr>,
          Notice (Result (Made 2 Selection)))"
    by (rule literal_example)
qed

text \<open>The example of the specification, and a group token as replacement.\<close>

theorem literal_mode_split_join_witness:
  "''a.b'' \<noteq> []
   \<and> js_split ''a.b a.b'' ''a.b'' = ['''', '' '', '''']
   \<and> literalReplaceAll (editorOf ''a.b a.b'') '''' ''a.b'' ''X'' False
       = (setValue (snd (getValue (editorOf ''a.b a.b''))) ''X X'', Made 2 Selection)
   \<and> replaceOccurrences ''a.b'' ''X'' ''a.b a.b'' = ''X X''
   \<and> countOccurrences ''a.b'' ''a.b a.b'' = 2
   \<and> docText (fst (literalReplaceAll (editorOf ''a.b a.b'') '''' ''a.b'' ''$1'' False))
       = ''$1 $1''"
proof -
  have ne: "''a.b'' \<noteq> []" by simp
  have sp: "js_split ''a.b a.b'' ''a.b'' = ['''', '' '', '''']"
    by (simp add: js_split_def)
  have doc: "docText (editorOf ''a.b a.b'') = ''a.b a.b''"
    by (simp add: docText_def editorOf_def)
  have lit: "literalReplaceAll (editorOf ''a.b a.b'') '''' ''a.b'' ''X'' False
      = (setValue (snd (getValue (editorOf ''a.b a.b''))) ''X X'', Made 2 Selection)"
    by (simp add: literalReplaceAll_def getValue_def doc sp)
  note all = literal_mode_split_join [where buf = "editorOf ''a.b a.b''" and selectedText = "''''"
      and searchString = "''a.b''" and replaceString = "''X''" and selToggle = False
      and eng = fragmentEngine and st = DEFAULT_SETTINGS and ed = "editorOf ''a.b a.b''"
      and replaceInput = "''X''"]
  from all [THEN conjunct1] have "js_join (js_split ''a.b a.b'' ''a.b'') ''X''
        = replaceOccurrences ''a.b'' ''X'' ''a.b a.b''
      \<and> length (js_split ''a.b a.b'' ''a.b'') = Suc (countOccurrences ''a.b'' ''a.b a.b'')"
    by (simp add: lit doc Let_def del: replaceOccurrences.simps countOccurrences.simps)
  then have "replaceOccurrences ''a.b'' ''X'' ''a.b a.b'' = ''X X''"
    and "countOccurrences ''a.b'' ''a.b a.b'' = 2"
    by (simp_all add: sp del: replaceOccurrences.simps countOccurrences.simps)
  moreover have "docText (fst (literalReplaceAll (editorOf ''a.b a.b'') '''' ''a.b'' ''$1'' False))
      = ''$1 $1''"
    by (simp add: literalReplaceAll_def getValue_def setValue_def docText_def sp
        editorOf_def)
  ultimately show ?thesis
    using ne sp lit by (simp del: replaceOccurrences.simps countOccurrences.simps)
qed

subsection \<open>Escape sequences\<close>

lemma expandEscape_head:
  "expandEscape k r s = x # xs \<Longrightarrow> x \<noteq> r \<Longrightarrow> \<exists>t. s = x # t"
  by (induction k r s rule: expandEscape.induct) (auto split: if_splits)

lemma sublist_pair_Cons:
  "sublist [a, b] (x # xs) \<longleftrightarrow> (x = a \<and> (\<exists>t. xs = b # t)) \<or> sublist [a, b] xs"
  by (auto simp: sublist_Cons_right prefix_def)

lemma expandEscape_keeps_absent:
  "r \<noteq> a \<Longrightarrow> r \<noteq> b \<Longrightarrow> \<not> sublist [a, b] s \<Longrightarrow> \<not> sublist [a, b] (expandEscape k r s)"
proof (induction k r s rule: expandEscape.induct)
  case (3 k r c d rest)
  from "3.prems"(3) have rest: "\<not> sublist [a, b] rest" and tail: "\<not> sublist [a, b] (d # rest)"
    and here: "\<not> (c = a \<and> d = b)"
    by (auto simp: sublist_pair_Cons)
  show ?case
  proof (cases "c = backslash \<and> d = k")
    case True
    with "3.IH"(1) "3.prems"(1,2) rest have "\<not> sublist [a, b] (expandEscape k r rest)"
      by simp
    moreover have "\<not> (\<exists>t. expandEscape k r rest = b # t \<and> r = a)"
      using "3.prems"(1) by simp
    ultimately show ?thesis
      using True "3.prems"(1) by (simp add: sublist_pair_Cons)
  next
    case False
    with "3.IH"(2) "3.prems"(1,2) tail
    have ih: "\<not> sublist [a, b] (expandEscape k r (d # rest))"
      by simp
    have "\<not> (c = a \<and> (\<exists>t. expandEscape k r (d # rest) = b # t))"
    proof
      assume h: "c = a \<and> (\<exists>t. expandEscape k r (d # rest) = b # t)"
      then obtain t where "expandEscape k r (d # rest) = b # t" by blast
      with "3.prems"(2) have "\<exists>u. d # rest = b # u"
        using expandEscape_head [of k r "d # rest" b t] by simp
      with h here show False by simp
    qed
    moreover from False
    have "expandEscape k r (c # d # rest) = c # expandEscape k r (d # rest)"
      by auto
    ultimately show ?thesis
      using ih by (simp only: sublist_pair_Cons) simp
  qed
qed (simp_all add: sublist_pair_Cons)

lemma expandEscape_removes:
  "r \<noteq> backslash \<Longrightarrow> r \<noteq> k \<Longrightarrow> \<not> sublist [backslash, k] (expandEscape k r s)"
proof (induction k r s rule: expandEscape.induct)
  case (3 k r c d rest)
  show ?case
  proof (cases "c = backslash \<and> d = k")
    case True
    with "3.IH"(1) "3.prems" have "\<not> sublist [backslash, k] (expandEscape k r rest)"
      by simp
    with True "3.prems" show ?thesis
      by (simp add: sublist_pair_Cons)
  next
    case False
    with "3.IH"(2) "3.prems" have ih: "\<not> sublist [backslash, k] (expandEscape k r (d # rest))"
      by simp
    have "\<not> (c = backslash \<and> (\<exists>t. expandEscape k r (d # rest) = k # t))"
    proof
      assume h: "c = backslash \<and> (\<exists>t. expandEscape k r (d # rest) = k # t)"
      then obtain t where "expandEscape k r (d # rest) = k # t" by blast
      with "3.prems"(2) have "\<exists>u. d # rest = k # u"
        using expandEscape_head [of k r "d # rest" k t] by simp
      with h False show False by simp
    qed
    moreover from False
    have "expandEscape k r (c # d # rest) = c # expandEscape k r (d # rest)"
      by auto
    ultimately show ?thesis
      using ih by (simp only: sublist_pair_Cons) simp
  qed
qed (simp_all add: sublist_pair_Cons)

lemma expandEscape_plain_char:
  "c \<noteq> backslash \<Longrightarrow> c \<noteq> k \<Longrightarrow>
     expandEscape k r (xs @ c # ys) = expandEscape k r xs @ c # expandEscape k r ys"
proof (induction k r xs rule: expandEscape.induct)
  case (1 k r)
  then show ?case by (cases ys) simp_all
next
  case (2 k r x)
  then show ?case by (cases ys) simp_all
next
  case (3 k r x d rest)
  then show ?case by simp
qed

lemma expandEscape_at_escape:
  "k \<noteq> backslash \<Longrightarrow>
     expandEscape k r (xs @ [backslash, k] @ ys) = expandEscape k r xs @ [r] @ expandEscape k r ys"
proof (induction k r xs rule: expandEscape.induct)
  case (1 k r)
  then show ?case by simp
next
  case (2 k r x)
  then show ?case by simp
next
  case (3 k r x d rest)
  then show ?case by simp
qed

text \<open>
  Claim C9. Escape resolution expands line breaks first and tabs second. With line-break
  expansion enabled, no backslash followed by \<^verbatim>\<open>n\<close> is left in the resolved template,
  and wherever the template holds these two characters the resolved template holds a
  line-break character, between the resolved text before and the resolved text after.
\<close>

theorem resolveEscapes_line_breaks_first:
  assumes "processLineBreak st"
  shows "resolveEscapes st template =
           (if processTab st
            then expandEscape (CHR ''t'') tabChar (expandEscape (CHR ''n'') lineBreak template)
            else expandEscape (CHR ''n'') lineBreak template)
       \<and> \<not> sublist [backslash, CHR ''n''] (resolveEscapes st template)
       \<and> resolveEscapes st (xs @ [backslash, CHR ''n''] @ ys)
           = resolveEscapes st xs @ [lineBreak] @ resolveEscapes st ys"
proof -
  have nl: "lineBreak \<noteq> backslash" "lineBreak \<noteq> CHR ''n''" "lineBreak \<noteq> CHR ''t''"
    and tb: "tabChar \<noteq> backslash" "tabChar \<noteq> CHR ''n''"
    and n: "CHR ''n'' \<noteq> backslash"
    by (simp_all add: lineBreak_def tabChar_def backslash_def)
  have gone: "\<not> sublist [backslash, CHR ''n''] (expandEscape (CHR ''n'') lineBreak template)"
    using nl by (simp add: expandEscape_removes)
  then have gone2: "\<not> sublist [backslash, CHR ''n'']
      (expandEscape (CHR ''t'') tabChar (expandEscape (CHR ''n'') lineBreak template))"
    using tb by (simp add: expandEscape_keeps_absent)
  have pos: "expandEscape (CHR ''n'') lineBreak (xs @ [backslash, CHR ''n''] @ ys)
      = expandEscape (CHR ''n'') lineBreak xs @ [lineBreak] @ expandEscape (CHR ''n'') lineBreak ys"
    using n by (rule expandEscape_at_escape)
  have pos2: "expandEscape (CHR ''t'') tabChar (u @ [lineBreak] @ v)
      = expandEscape (CHR ''t'') tabChar u @ [lineBreak] @ expandEscape (CHR ''t'') tabChar v"
    for u v
    using nl expandEscape_plain_char [of lineBreak "CHR ''t''" tabChar u v] by simp
  show ?thesis
    using assms gone gone2 pos pos2 by (simp add: resolveEscapes_def)
qed

theorem resolveEscapes_line_breaks_first_witness:
  "processLineBreak (DEFAULT_SETTINGS\<lparr>processLineBreak := True, processTab := True\<rparr>)
   \<and> resolveEscapes (DEFAULT_SETTINGS\<lparr>processLineBreak := True, processTab := True\<rparr>)
         (''a'' @ [backslash, CHR ''n''] @ ''b'')
       = [CHR ''a'', lineBreak, CHR ''b'']
   \<and> \<not> sublist [backslash, CHR ''n'']
         (resolveEscapes (DEFAULT_SETTINGS\<lparr>processLineBreak := True, processTab := True\<rparr>)
            (''a'' @ [backslash, CHR ''n''] @ ''b''))"
proof -
  let ?st = "DEFAULT_SETTINGS\<lparr>processLineBreak := True, processTab := True\<rparr>"
  have on: "processLineBreak ?st"
    by (simp add: DEFAULT_SETTINGS_def)
  have ends: "resolveEscapes ?st ''a'' = ''a''" "resolveEscapes ?st ''b'' = ''b''"
    by (simp_all add: resolveEscapes_def DEFAULT_SETTINGS_def)
  note all = resolveEscapes_line_breaks_first [OF on, of "''a'' @ [backslash, CHR ''n''] @ ''b''"
      "''a''" "''b''"]
  from all have gone: "\<not> sublist [backslash, CHR ''n'']
      (resolveEscapes ?st (''a'' @ [backslash, CHR ''n''] @ ''b''))"
    by (rule conjunct1 [OF conjunct2])
  from all have "resolveEscapes ?st (''a'' @ [backslash, CHR ''n''] @ ''b'')
      = resolveEscapes ?st ''a'' @ [lineBreak] @ resolveEscapes ?st ''b''"
    by (rule conjunct2 [OF conjunct2])
  then have "resolveEscapes ?st (''a'' @ [backslash, CHR ''n''] @ ''b'')
      = [CHR ''a'', lineBreak, CHR ''b'']"
    by (simp only: ends append.simps)
  with on gone show ?thesis by (intro conjI)
qed

end
